theory Spec2Isabelle
  imports Complex_Main "HOL-Library.Sublist"
begin

section \<open>Python strings\<close>

text \<open>
  Strings are character lists. The string methods the downloader calls are written out:
  \<^verbatim>\<open>str.strip()\<close>, \<^verbatim>\<open>str.split()\<close> (no argument: split at runs of
  whitespace, no empty tokens), \<^verbatim>\<open>str.replace(old, new)\<close> and the substring
  test \<^verbatim>\<open>sub in s\<close>. A character stands for the code point of its number, so
  strings are those over the code points below 256; the whitespace of
  \<^verbatim>\<open>str.isspace\<close> among these is 9 to 13, 28 to 32, U+0085 and U+00A0.
\<close>

datatype py_error = IndexError | ZeroDivisionError

definition py_isspace :: "char \<Rightarrow> bool" where
  "py_isspace c = (c \<in> set [CHR 0x09, CHR 0x0A, CHR 0x0B, CHR 0x0C, CHR 0x0D,
                              CHR 0x1C, CHR 0x1D, CHR 0x1E, CHR 0x1F, CHR '' '',
                              CHR 0x85, CHR 0xA0])"

definition py_strip :: "string \<Rightarrow> string" where
  "py_strip s = rev (dropWhile py_isspace (rev (dropWhile py_isspace s)))"

fun split_ws :: "string \<Rightarrow> string \<Rightarrow> string list" where
  "split_ws tok [] = (if tok = [] then [] else [tok])"
| "split_ws tok (c # cs) =
     (if py_isspace c then (if tok = [] then split_ws [] cs else tok # split_ws [] cs)
      else split_ws (tok @ [c]) cs)"

definition py_split :: "string \<Rightarrow> string list" where
  "py_split s = split_ws [] s"

text \<open>
  \<open>replace_from old new k s\<close> scans \<open>s\<close> from the left; \<open>k\<close> counts the characters
  of a match just replaced that are still to be skipped, so matches do not overlap.
\<close>

fun replace_from :: "string \<Rightarrow> string \<Rightarrow> nat \<Rightarrow> string \<Rightarrow> string" where
  "replace_from old new k [] = []"
| "replace_from old new (Suc k) (c # cs) = replace_from old new k cs"
| "replace_from old new 0 (c # cs) =
     (if prefix old (c # cs) then new @ replace_from old new (length old - 1) cs
      else c # replace_from old new 0 cs)"

definition py_replace :: "string \<Rightarrow> string \<Rightarrow> string \<Rightarrow> string" where
  "py_replace old new s =
     (if old = [] then new @ concat (map (\<lambda>c. c # new) s) else replace_from old new 0 s)"

fun py_in :: "string \<Rightarrow> string \<Rightarrow> bool" where
  "py_in sub [] = (sub = [])"
| "py_in sub (c # cs) = (prefix sub (c # cs) \<or> py_in sub cs)"

text \<open>\<^verbatim>\<open>s.split()[0]\<close>: the first token, or IndexError when there is none.\<close>

definition first_token :: "string \<Rightarrow> py_error + string" where
  "first_token s = (case py_split s of [] \<Rightarrow> Inl IndexError | t # ts \<Rightarrow> Inr t)"

section \<open>Format selection\<close>

text \<open>
  \<^verbatim>\<open>_update_quality_options\<close> fills the quality combobox with one of two
  fixed lists and selects a default; \<^verbatim>\<open>_get_format_string\<close> builds the backend's
  format expression from the selected label.
\<close>

definition video_qualities :: "string list" where
  "video_qualities = [''2160p (4K)'', ''1440p (2K)'', ''1080p (Full HD)'',
                      ''720p (HD)'', ''480p'', ''360p'', ''240p'', ''144p'']"

definition audio_qualities :: "string list" where
  "audio_qualities = [''320kbps (High)'', ''256kbps (Good)'',
                      ''192kbps (Medium)'', ''128kbps (Low)'']"

definition video_format :: "string \<Rightarrow> string" where
  "video_format resolution =
     ''bestvideo[height<='' @ resolution @ '']+bestaudio/best[height<='' @ resolution
       @ '']/bestvideo+bestaudio/best''"

definition audio_format :: "string \<Rightarrow> string" where
  "audio_format bitrate = ''bestaudio[abr<='' @ bitrate @ '']/bestaudio/best''"

definition get_format_string :: "string \<Rightarrow> string \<Rightarrow> py_error + string" where
  "get_format_string format_type quality =
     (if format_type = ''video'' then
        (case first_token quality of
           Inl e \<Rightarrow> Inl e
         | Inr t \<Rightarrow> Inr (video_format (py_replace ''p'' '''' t)))
      else
        (case first_token quality of
           Inl e \<Rightarrow> Inl e
         | Inr t \<Rightarrow> Inr (audio_format (py_replace ''kbps'' '''' t))))"

section \<open>Values of the extraction backend\<close>

text \<open>
  The backend's info dictionaries are association lists in key order. The scalar fields
  the downloader reads (title, url, webpage_url, id) hold a string or None. A dictionary
  returned by \<^verbatim>\<open>extract_info\<close> is kept as its scalar fields together with the
  value under \<^verbatim>\<open>'entries'\<close> when that key is present: a list whose items are
  dictionaries or None.
\<close>

datatype pyval = PNone | PStr string

type_synonym pydict = "(string \<times> pyval) list"

fun truthy :: "pyval \<Rightarrow> bool" where
  "truthy PNone = False"
| "truthy (PStr s) = (s \<noteq> [])"

fun py_str :: "pyval \<Rightarrow> string" where
  "py_str PNone = ''None''"
| "py_str (PStr s) = s"

definition dict_get :: "pydict \<Rightarrow> string \<Rightarrow> pyval \<Rightarrow> pyval" where
  "dict_get d k dflt = (case map_of d k of None \<Rightarrow> dflt | Some v \<Rightarrow> v)"

definition py_or :: "pyval \<Rightarrow> pyval \<Rightarrow> pyval" where
  "py_or a b = (if truthy a then a else b)"

record info_dict =
  info_fields :: pydict
  info_entries :: "pydict option list option"

datatype extract_outcome = ExtractRaises string | ExtractReturns "info_dict option"

text \<open>\<^verbatim>\<open>if info:\<close> holds for a dictionary with at least one key.\<close>

definition info_truthy :: "info_dict option \<Rightarrow> bool" where
  "info_truthy i = (case i of None \<Rightarrow> False
                    | Some d \<Rightarrow> \<not> (info_fields d = [] \<and> info_entries d = None))"

record entry =
  entry_title :: pyval
  entry_url :: string
  entry_id :: pyval

section \<open>Resolution of the URL into entries\<close>

definition entry_of :: "pydict \<Rightarrow> entry" where
  "entry_of e =
     \<lparr> entry_title = dict_get e ''title'' (PStr ''Unknown''),
       entry_url = py_str (py_or (dict_get e ''url'' PNone)
                     (py_or (dict_get e ''webpage_url'' PNone)
                        (PStr (''https://youtube.com/watch?v='' @ py_str (dict_get e ''id'' PNone))))),
       entry_id = dict_get e ''id'' PNone \<rparr>"

text \<open>The loop over \<^verbatim>\<open>entries\<close>: an item that is falsy (None, or a dictionary
  without keys) is passed over, every other item is appended.\<close>

fun collect_entries :: "pydict option list \<Rightarrow> entry list" where
  "collect_entries [] = []"
| "collect_entries (None # es) = collect_entries es"
| "collect_entries (Some e # es) =
     (if e \<noteq> [] then entry_of e # collect_entries es else collect_entries es)"

text \<open>
  The \<^verbatim>\<open>try\<close> block of \<^verbatim>\<open>_download_video\<close>: the result is the pair
  \<^verbatim>\<open>(playlist_entries, playlist_title)\<close>. With items of the types above nothing
  inside the block raises after \<^verbatim>\<open>extract_info\<close> has returned, so the
  \<^verbatim>\<open>except\<close> branch is the branch of a failing \<^verbatim>\<open>extract_info\<close>.
\<close>

definition resolve_entries :: "string \<Rightarrow> extract_outcome \<Rightarrow> entry list \<times> pyval" where
  "resolve_entries url x =
     (case x of
        ExtractRaises msg \<Rightarrow>
          ([\<lparr> entry_title = PStr ''Unknown'', entry_url = url, entry_id = PNone \<rparr>], PNone)
      | ExtractReturns info \<Rightarrow>
          (if info_truthy info then
             (case info of
                None \<Rightarrow> ([], PNone)
              | Some d \<Rightarrow>
                  (case info_entries d of
                     Some es \<Rightarrow>
                       (collect_entries es, dict_get (info_fields d) ''title'' (PStr ''Playlist''))
                   | None \<Rightarrow>
                       ([\<lparr> entry_title = dict_get (info_fields d) ''title'' (PStr ''Unknown''),
                           entry_url = url,
                           entry_id = dict_get (info_fields d) ''id'' PNone \<rparr>], PNone)))
           else ([], PNone)))"

section \<open>Application state and the status sink\<close>

datatype indicator = Ready | Downloading | Success | Error

text \<open>
  A status text is kept as the values interpolated into it, in the order of the
  f-string, rather than as the formatted string.
\<close>

datatype status_msg =
    FetchingInfo
  | PlaylistInfo pyval nat
  | Progress nat nat pyval rat "int option"
  | Processing nat nat
  | DownloadCancelled
  | CompletedAll nat nat
  | CompletedSome nat nat
  | Stopping

datatype dialog = DependencyError | EnterUrlError | SuccessOne | SuccessMany nat

text \<open>
  The fields of the window object that the download code reads or writes. Calls on
  widgets and on the backend are kept as logs, oldest first: every value given to
  \<^verbatim>\<open>progress_var.set\<close>, every \<^verbatim>\<open>_update_status\<close> call, every message box,
  every URL given to \<^verbatim>\<open>ydl.download\<close>; started worker threads and opened folders
  are counted.
\<close>

record app_state =
  url_entry :: string
  format_type :: string
  quality_values :: "string list"
  quality_var :: string
  ffmpeg_ok :: bool
  downloading :: bool
  stop_requested :: bool
  progress_sets :: "rat list"
  status_log :: "(status_msg \<times> indicator) list"
  button_text :: string
  dialogs :: "dialog list"
  workers_started :: nat
  folders_opened :: nat
  fetched :: "string list"

definition update_status :: "status_msg \<Rightarrow> indicator \<Rightarrow> app_state \<Rightarrow> app_state" where
  "update_status text ind st = st\<lparr> status_log := status_log st @ [(text, ind)] \<rparr>"

definition progress_set :: "rat \<Rightarrow> app_state \<Rightarrow> app_state" where
  "progress_set v st = st\<lparr> progress_sets := progress_sets st @ [v] \<rparr>"

definition update_quality_options :: "app_state \<Rightarrow> app_state" where
  "update_quality_options st =
     (if format_type st = ''video''
      then st\<lparr> quality_values := video_qualities, quality_var := video_qualities ! 2 \<rparr>
      else st\<lparr> quality_values := audio_qualities, quality_var := audio_qualities ! 0 \<rparr>)"

definition reset_download_state :: "app_state \<Rightarrow> app_state" where
  "reset_download_state st =
     (progress_set 0 st)\<lparr> button_text := ''Download'', downloading := False,
                           stop_requested := False \<rparr>"

definition stop_download :: "app_state \<Rightarrow> app_state" where
  "stop_download st =
     (if downloading st then update_status Stopping Downloading (st\<lparr> stop_requested := True \<rparr>)
      else st)"

definition start_download :: "app_state \<Rightarrow> app_state" where
  "start_download st =
     (if \<not> downloading st then
        (let url = py_strip (url_entry st) in
         if url = [] then st\<lparr> dialogs := dialogs st @ [EnterUrlError] \<rparr>
         else st\<lparr> downloading := True, stop_requested := False, button_text := ''Stop'',
                  workers_started := Suc (workers_started st) \<rparr>)
      else stop_download st)"

section \<open>The progress hook\<close>

text \<open>
  The dictionary the backend hands to a progress hook, as the results of the
  \<^verbatim>\<open>d.get\<close> calls of the hook: \<open>None\<close> is what \<^verbatim>\<open>d.get(key)\<close> returns
  for a missing key. Byte counts and the speed are integers; \<open>ev_title\<close> is the title
  under \<^verbatim>\<open>info_dict\<close> when there is one. Python's true division is taken exactly,
  as a rational number.
\<close>

record progress_event =
  ev_status :: "string option"
  ev_total_bytes :: "int option"
  ev_total_bytes_estimate :: "int option"
  ev_downloaded_bytes :: "int option"
  ev_title :: "pyval option"
  ev_speed :: "int option"

text \<open>\<^verbatim>\<open>a or b\<close> for an optional integer \<open>a\<close>: None and 0 are falsy.\<close>

definition or_else :: "int option \<Rightarrow> int \<Rightarrow> int" where
  "or_else a b = (case a of None \<Rightarrow> b | Some n \<Rightarrow> if n \<noteq> 0 then n else b)"

definition event_total :: "progress_event \<Rightarrow> int" where
  "event_total d = or_else (ev_total_bytes d) (or_else (ev_total_bytes_estimate d) 0)"

definition event_downloaded :: "progress_event \<Rightarrow> int" where
  "event_downloaded d = (case ev_downloaded_bytes d of None \<Rightarrow> 0 | Some n \<Rightarrow> n)"

definition py_truediv :: "int \<Rightarrow> int \<Rightarrow> py_error + rat" where
  "py_truediv a b = (if b = 0 then Inl ZeroDivisionError else Inr (of_int a / of_int b))"

text \<open>\<^verbatim>\<open>progress = (downloaded / total) * 100 if total else 0\<close>\<close>

definition hook_progress :: "progress_event \<Rightarrow> py_error + rat" where
  "hook_progress d =
     (let total_bytes = event_total d; downloaded = event_downloaded d in
      if total_bytes \<noteq> 0 then
        (case py_truediv downloaded total_bytes of Inl e \<Rightarrow> Inl e | Inr q \<Rightarrow> Inr (q * 100))
      else Inr 0)"

definition hook_speed :: "progress_event \<Rightarrow> int option" where
  "hook_speed d = (case ev_speed d of None \<Rightarrow> None | Some v \<Rightarrow> if v \<noteq> 0 then Some v else None)"

text \<open>
  The closure \<^verbatim>\<open>hook\<close> made by \<^verbatim>\<open>make_progress_hook(entry_index, entry_data)\<close>,
  with \<^verbatim>\<open>total_count\<close> of the enclosing function. \<open>Inl msg\<close> is the raised
  \<^verbatim>\<open>Exception(msg)\<close>. An exception inside the inner \<^verbatim>\<open>try\<close> is passed over,
  leaving the state as it was.
\<close>

definition stop_message :: string where
  "stop_message = ''Download stopped by user''"

definition hook :: "nat \<Rightarrow> nat \<Rightarrow> entry \<Rightarrow> progress_event \<Rightarrow> app_state \<Rightarrow> string + app_state" where
  "hook entry_index total_count entry_data d st =
     (if stop_requested st then Inl stop_message
      else if ev_status d = Some ''downloading'' then
        (case hook_progress d of
           Inl e \<Rightarrow> Inr st
         | Inr progress \<Rightarrow>
             (let title = (case ev_title d of None \<Rightarrow> entry_title entry_data | Some t \<Rightarrow> t) in
              Inr (update_status
                     (Progress (entry_index + 1) total_count title progress (hook_speed d))
                     Downloading (progress_set progress st))))
      else if ev_status d = Some ''finished'' then
        Inr (update_status (Processing (entry_index + 1) total_count) Downloading st)
      else Inr st)"

section \<open>One backend download\<close>

text \<open>
  What happens while one \<^verbatim>\<open>ydl.download\<close> call runs, in order: the backend calls
  the progress hook with an event, or the user asks for a stop in the interface thread
  (\<^verbatim>\<open>_stop_download\<close>). A stop step after the last hook call also stands for a stop
  asked for after the call has returned and before the flag is read next. The call ends
  by returning or by raising an error of the backend. An exception raised by the hook
  leaves the call at once, as the exception of the call.
\<close>

datatype step = UiStop | HookCall progress_event

datatype fetch_end = FetchReturns | FetchRaises string

fun ydl_download ::
  "(progress_event \<Rightarrow> app_state \<Rightarrow> string + app_state) \<Rightarrow> step list \<Rightarrow> fetch_end
     \<Rightarrow> app_state \<Rightarrow> string option \<times> app_state" where
  "ydl_download h [] FetchReturns st = (None, st)"
| "ydl_download h [] (FetchRaises msg) st = (Some msg, st)"
| "ydl_download h (UiStop # ss) e st = ydl_download h ss e (stop_download st)"
| "ydl_download h (HookCall d # ss) e st =
     (case h d st of Inl msg \<Rightarrow> (Some msg, st) | Inr st' \<Rightarrow> ydl_download h ss e st')"

text \<open>What a download call gives back when no hook call raises: nothing, or the
  message of the backend's own error.\<close>

definition end_result :: "fetch_end \<Rightarrow> string option" where
  "end_result en = (case en of FetchReturns \<Rightarrow> None | FetchRaises m \<Rightarrow> Some m)"

text \<open>
  The events of a download call for which the hook computes a progress value, in the
  order of the calls, and the value the hook computes for an event.
\<close>

fun downloading_events :: "step list \<Rightarrow> progress_event list" where
  "downloading_events [] = []"
| "downloading_events (UiStop # ss) = downloading_events ss"
| "downloading_events (HookCall d # ss) =
     (if ev_status d = Some ''downloading'' then d # downloading_events ss
      else downloading_events ss)"

definition hook_value :: "progress_event \<Rightarrow> rat" where
  "hook_value d = (case hook_progress d of Inl err \<Rightarrow> 0 | Inr progress \<Rightarrow> progress)"

section \<open>The download loop\<close>

text \<open>
  The local variables of the loop are the state of the window and
  \<^verbatim>\<open>completed_count\<close>. \<open>trail\<close> is not a variable of the source: it notes, for
  each iteration begun, which way the iteration went.
\<close>

datatype unit_path = Returned | RaisedContinue string | RaisedBreak string | StopAtTop

record loop_state =
  app :: app_state
  completed_count :: nat
  trail :: "unit_path list"

type_synonym backend = "nat \<Rightarrow> string \<Rightarrow> step list \<times> fetch_end"

fun download_loop :: "backend \<Rightarrow> nat \<Rightarrow> nat \<Rightarrow> entry list \<Rightarrow> loop_state \<Rightarrow> loop_state" where
  "download_loop be total_count i [] ls = ls"
| "download_loop be total_count i (e # rest) ls =
     (if stop_requested (app ls) then ls\<lparr> trail := trail ls @ [StopAtTop] \<rparr>
      else
        (let st1 = (app ls)\<lparr> fetched := fetched (app ls) @ [entry_url e] \<rparr> in
         case ydl_download (hook i total_count e) (fst (be i (entry_url e)))
                (snd (be i (entry_url e))) st1 of
           (None, st2) \<Rightarrow>
             download_loop be total_count (i + 1) rest
               (ls\<lparr> app := st2, completed_count := completed_count ls + 1,
                    trail := trail ls @ [Returned] \<rparr>)
         | (Some error_msg, st2) \<Rightarrow>
             (if py_in stop_message error_msg
              then ls\<lparr> app := st2, trail := trail ls @ [RaisedBreak error_msg] \<rparr>
              else download_loop be total_count (i + 1) rest
                     (ls\<lparr> app := st2, trail := trail ls @ [RaisedContinue error_msg] \<rparr>))))"

text \<open>
  For saying what a run does from what the backend and the user do. A download during
  which no hook call raises takes the loop one of three ways, by how the call ends.
  The loop goes on after it unless the call ends with an error that carries the stop
  message. A stretch of entries is undisturbed, from loop index \<open>i\<close> on, when during
  their downloads no stop is requested and the loop goes on after each.
\<close>

definition path_of_end :: "fetch_end \<Rightarrow> unit_path" where
  "path_of_end en =
     (case en of FetchReturns \<Rightarrow> Returned
      | FetchRaises msg \<Rightarrow>
          if py_in stop_message msg then RaisedBreak msg else RaisedContinue msg)"

definition passes_on :: "fetch_end \<Rightarrow> bool" where
  "passes_on en =
     (case en of FetchReturns \<Rightarrow> True | FetchRaises msg \<Rightarrow> \<not> py_in stop_message msg)"

fun undisturbed :: "backend \<Rightarrow> nat \<Rightarrow> entry list \<Rightarrow> bool" where
  "undisturbed be i [] = True"
| "undisturbed be i (e # es) =
     (UiStop \<notin> set (fst (be i (entry_url e))) \<and> passes_on (snd (be i (entry_url e)))
      \<and> undisturbed be (Suc i) es)"

fun undisturbed_paths :: "backend \<Rightarrow> nat \<Rightarrow> entry list \<Rightarrow> unit_path list" where
  "undisturbed_paths be i [] = []"
| "undisturbed_paths be i (e # es) =
     path_of_end (snd (be i (entry_url e))) # undisturbed_paths be (Suc i) es"

fun has_hook_call :: "step list \<Rightarrow> bool" where
  "has_hook_call [] = False"
| "has_hook_call (UiStop # ss) = has_hook_call ss"
| "has_hook_call (HookCall d # ss) = True"

section \<open>The worker: \<^verbatim>\<open>_download_video\<close>\<close>

text \<open>
  Everything outside the program that a run depends on: what \<^verbatim>\<open>extract_info\<close>
  does, whether the user asks for a stop while the URL is being resolved, what each
  download call does (by loop index and URL), and the answer to the final question.
\<close>

record world =
  extract_result :: extract_outcome
  stop_while_resolving :: bool
  fetch_behaviour :: backend
  open_folder_answer :: bool

definition final_report :: "bool \<Rightarrow> nat \<Rightarrow> nat \<Rightarrow> app_state \<Rightarrow> app_state" where
  "final_report answer completed total_count st =
     (if stop_requested st then update_status DownloadCancelled Ready st
      else if completed = total_count then
        (let st1 = update_status (CompletedAll completed total_count) Success
                     (progress_set 100 st);
             st2 = st1\<lparr> dialogs := dialogs st1
                          @ [if total_count = 1 then SuccessOne else SuccessMany completed] \<rparr>
         in if answer then st2\<lparr> folders_opened := Suc (folders_opened st2) \<rparr> else st2)
      else update_status (CompletedSome completed total_count) Error st)"

text \<open>
  How the worker ends: before resolving (empty URL or missing ffmpeg), by an uncaught
  exception while the options are built (\<^verbatim>\<open>_get_format_string\<close> and the
  \<^verbatim>\<open>preferredquality\<close> entry index the token list of the quality label), or after
  the loop. \<open>r_cancelled\<close> is the value of \<^verbatim>\<open>self.stop_requested\<close> that the final
  \<^verbatim>\<open>if\<close> reads.
\<close>

record run_result =
  final_state :: app_state
  r_completed :: nat
  r_total :: nat
  r_trail :: "unit_path list"
  r_cancelled :: bool

datatype run_end = NotStarted app_state | Crashed py_error app_state | Finished run_result

text \<open>
  The worker is written in three parts: the state in which the loop starts (the status
  updates before it, and a stop requested by the user in the meantime), the loop over
  the resolved entries, and the function as a whole.
\<close>

definition state_after_resolving :: "world \<Rightarrow> app_state \<Rightarrow> app_state" where
  "state_after_resolving w st =
     (let url = py_strip (url_entry st);
          st1 = update_status FetchingInfo Downloading st;
          st2 = (if stop_while_resolving w then stop_download st1 else st1);
          playlist_entries = fst (resolve_entries url (extract_result w));
          playlist_title = snd (resolve_entries url (extract_result w))
      in if truthy playlist_title \<and> length playlist_entries > 1
         then update_status (PlaylistInfo playlist_title (length playlist_entries))
                Downloading st2
         else st2)"

definition run_loop :: "world \<Rightarrow> app_state \<Rightarrow> loop_state" where
  "run_loop w st =
     (let playlist_entries = fst (resolve_entries (py_strip (url_entry st)) (extract_result w));
          total_count = length playlist_entries
      in download_loop (fetch_behaviour w) total_count 0 playlist_entries
           \<lparr> app = state_after_resolving w st, completed_count = 0, trail = [] \<rparr>)"

definition download_video :: "world \<Rightarrow> app_state \<Rightarrow> run_end" where
  "download_video w st =
     (let url = py_strip (url_entry st) in
      if url = [] then NotStarted (reset_download_state st)
      else if \<not> ffmpeg_ok st then
        NotStarted (reset_download_state (st\<lparr> dialogs := dialogs st @ [DependencyError] \<rparr>))
      else
        (let st3 = state_after_resolving w st;
             total_count = length (fst (resolve_entries url (extract_result w)))
         in case get_format_string (format_type st3) (quality_var st3) of
              Inl err \<Rightarrow> Crashed err st3
            | Inr fmt \<Rightarrow>
                (let ls = run_loop w st;
                     st4 = final_report (open_folder_answer w) (completed_count ls) total_count
                             (app ls)
                 in Finished \<lparr> final_state = reset_download_state st4,
                               r_completed = completed_count ls,
                               r_total = total_count,
                               r_trail = trail ls,
                               r_cancelled = stop_requested (app ls) \<rparr>)))"

section \<open>The specification's view of a run\<close>

text \<open>
  The specification describes a run by a list of unit outcomes and one of three final
  states. The source keeps neither; both are read off a finished run. A unit whose
  download returned has succeeded, one whose error was passed over has failed, and the
  unit at which the loop was left and all units after it were skipped. The final state
  is the branch the closing \<^verbatim>\<open>if\<close> took, visible as the last status text.
\<close>

datatype outcome_status = Succeeded | Failed | SkippedByCancellation

fun outcome_of :: "unit_path \<Rightarrow> outcome_status" where
  "outcome_of Returned = Succeeded"
| "outcome_of (RaisedContinue msg) = Failed"
| "outcome_of (RaisedBreak msg) = SkippedByCancellation"
| "outcome_of StopAtTop = SkippedByCancellation"

definition outcomes :: "nat \<Rightarrow> unit_path list \<Rightarrow> outcome_status list" where
  "outcomes total_count t =
     map outcome_of t @ replicate (total_count - length t) SkippedByCancellation"

datatype final_status = Completed | Cancelled | PartiallyFailed

fun status_class :: "status_msg \<Rightarrow> final_status option" where
  "status_class DownloadCancelled = Some Cancelled"
| "status_class (CompletedAll c t) = Some Completed"
| "status_class (CompletedSome c t) = Some PartiallyFailed"
| "status_class m = None"

definition final_status_of :: "app_state \<Rightarrow> final_status option" where
  "final_status_of st =
     (case rev (status_log st) of [] \<Rightarrow> None | m # ms \<Rightarrow> status_class (fst m))"

text \<open>The same readings for the three ways the worker can end.\<close>

definition run_status :: "run_end \<Rightarrow> final_status option" where
  "run_status x = (case x of Finished r \<Rightarrow> final_status_of (final_state r) | _ \<Rightarrow> None)"

definition run_outcomes :: "run_end \<Rightarrow> outcome_status list option" where
  "run_outcomes x = (case x of Finished r \<Rightarrow> Some (outcomes (r_total r) (r_trail r)) | _ \<Rightarrow> None)"

definition run_counts :: "run_end \<Rightarrow> (nat \<times> nat) option" where
  "run_counts x = (case x of Finished r \<Rightarrow> Some (r_completed r, r_total r) | _ \<Rightarrow> None)"

definition run_cancelled :: "run_end \<Rightarrow> bool option" where
  "run_cancelled x = (case x of Finished r \<Rightarrow> Some (r_cancelled r) | _ \<Rightarrow> None)"

definition run_state :: "run_end \<Rightarrow> app_state" where
  "run_state x = (case x of NotStarted st \<Rightarrow> st | Crashed e st \<Rightarrow> st
                  | Finished r \<Rightarrow> final_state r)"

text \<open>\<^verbatim>\<open>if entry:\<close> in the loop over the entries of a collection.\<close>

definition entry_truthy :: "pydict option \<Rightarrow> bool" where
  "entry_truthy x = (case x of None \<Rightarrow> False | Some e \<Rightarrow> e \<noteq> [])"

text \<open>
  The window as \<^verbatim>\<open>__init__\<close> leaves it when ffmpeg was found: no URL, video
  selected with the default quality, no run active.
\<close>

definition initial_state :: app_state where
  "initial_state =
     \<lparr> url_entry = '''', format_type = ''video'', quality_values = video_qualities,
       quality_var = ''1080p (Full HD)'', ffmpeg_ok = True, downloading = False,
       stop_requested = False, progress_sets = [], status_log = [],
       button_text = ''Download'', dialogs = [], workers_started = 0, folders_opened = 0,
       fetched = [] \<rparr>"

section \<open>Effects of the operations on the state\<close>

lemma update_status_fields [simp]:
  "stop_requested (update_status m i st) = stop_requested st"
  "downloading (update_status m i st) = downloading st"
  "fetched (update_status m i st) = fetched st"
  "progress_sets (update_status m i st) = progress_sets st"
  "status_log (update_status m i st) = status_log st @ [(m, i)]"
  "dialogs (update_status m i st) = dialogs st"
  "format_type (update_status m i st) = format_type st"
  "quality_var (update_status m i st) = quality_var st"
  by (simp_all add: update_status_def)

lemma progress_set_fields [simp]:
  "stop_requested (progress_set v st) = stop_requested st"
  "downloading (progress_set v st) = downloading st"
  "fetched (progress_set v st) = fetched st"
  "progress_sets (progress_set v st) = progress_sets st @ [v]"
  "status_log (progress_set v st) = status_log st"
  "dialogs (progress_set v st) = dialogs st"
  by (simp_all add: progress_set_def)

lemma stop_download_fields [simp]:
  "stop_requested (stop_download st) = (stop_requested st \<or> downloading st)"
  "downloading (stop_download st) = downloading st"
  "fetched (stop_download st) = fetched st"
  "progress_sets (stop_download st) = progress_sets st"
  "dialogs (stop_download st) = dialogs st"
  "format_type (stop_download st) = format_type st"
  "quality_var (stop_download st) = quality_var st"
  by (simp_all add: stop_download_def)

lemma reset_download_state_fields [simp]:
  "stop_requested (reset_download_state st) = False"
  "downloading (reset_download_state st) = False"
  "fetched (reset_download_state st) = fetched st"
  "progress_sets (reset_download_state st) = progress_sets st @ [0]"
  "status_log (reset_download_state st) = status_log st"
  "dialogs (reset_download_state st) = dialogs st"
  by (simp_all add: reset_download_state_def)

lemma final_report_fields [simp]:
  "fetched (final_report a c n st) = fetched st"
  "stop_requested (final_report a c n st) = stop_requested st"
  by (simp_all add: final_report_def Let_def)

lemma final_report_status:
  "status_log (final_report a c n st) = status_log st @
     [if stop_requested st then (DownloadCancelled, Ready)
      else if c = n then (CompletedAll c n, Success) else (CompletedSome c n, Error)]"
  by (simp add: final_report_def Let_def)

lemma final_report_progress:
  "progress_sets (final_report a c n st) =
     (if \<not> stop_requested st \<and> c = n then progress_sets st @ [100] else progress_sets st)"
  by (simp add: final_report_def Let_def)

lemma final_report_dialogs:
  "dialogs (final_report a c n st) =
     (if \<not> stop_requested st \<and> c = n
      then dialogs st @ [if n = 1 then SuccessOne else SuccessMany c] else dialogs st)"
  by (simp add: final_report_def Let_def)

lemma hook_stopped: "stop_requested st \<Longrightarrow> hook i n e d st = Inl stop_message"
  by (simp add: hook_def)

lemma hook_Inl: "hook i n e d st = Inl m \<Longrightarrow> m = stop_message \<and> stop_requested st"
  by (auto simp add: hook_def Let_def split: if_splits sum.splits)

lemma hook_Inr:
  "hook i n e d st = Inr st' \<Longrightarrow>
     \<not> stop_requested st \<and> \<not> stop_requested st' \<and> fetched st' = fetched st
     \<and> downloading st' = downloading st"
  by (auto simp add: hook_def Let_def split: if_splits sum.splits)

lemma ydl_download_fetched:
  "fetched (snd (ydl_download (hook i n e) ss en st)) = fetched st"
proof (induction ss arbitrary: st)
  case Nil
  show ?case by (cases en) simp_all
next
  case (Cons s ss)
  show ?case
  proof (cases s)
    case UiStop
    with Cons show ?thesis by simp
  next
    case (HookCall d)
    with Cons show ?thesis
      by (cases "hook i n e d st") (auto dest: hook_Inr)
  qed
qed

lemma ydl_download_downloading:
  "downloading (snd (ydl_download (hook i n e) ss en st)) = downloading st"
proof (induction ss arbitrary: st)
  case Nil
  show ?case by (cases en) simp_all
next
  case (Cons s ss)
  show ?case
  proof (cases s)
    case UiStop
    with Cons show ?thesis by simp
  next
    case (HookCall d)
    with Cons show ?thesis
      by (cases "hook i n e d st") (auto dest: hook_Inr)
  qed
qed

lemma ydl_download_stop_mono:
  "stop_requested st \<Longrightarrow> stop_requested (snd (ydl_download (hook i n e) ss en st))"
proof (induction ss arbitrary: st)
  case Nil
  then show ?case by (cases en) simp_all
next
  case (Cons s ss)
  show ?case
  proof (cases s)
    case UiStop
    with Cons show ?thesis by simp
  next
    case (HookCall d)
    with Cons show ?thesis by (simp add: hook_stopped)
  qed
qed

lemma ydl_download_no_stop:
  "UiStop \<notin> set ss \<Longrightarrow> \<not> stop_requested st \<Longrightarrow>
     fst (ydl_download (hook i n e) ss en st) = end_result en
     \<and> \<not> stop_requested (snd (ydl_download (hook i n e) ss en st))"
proof (induction ss arbitrary: st)
  case Nil
  then show ?case by (cases en) (simp_all add: end_result_def)
next
  case (Cons s ss)
  show ?case
  proof (cases s)
    case UiStop
    with Cons.prems show ?thesis by simp
  next
    case (HookCall d)
    show ?thesis
    proof (cases "hook i n e d st")
      case (Inl m)
      with Cons.prems show ?thesis by (auto dest: hook_Inl)
    next
      case (Inr st')
      then have "\<not> stop_requested st'" by (auto dest: hook_Inr)
      with Cons.IH [of st'] Cons.prems HookCall Inr show ?thesis by simp
    qed
  qed
qed

section \<open>Properties of the format selection\<close>

text \<open>
  Claim C5, as the code has it. For every label of the two combobox lists, and for the
  bare labels of the specification, the format expression is the one of the selected
  kind, bounded by the number the label starts with. The selector checks nothing: a
  label with a first token always gives an expression built from that token, and a label
  without one raises IndexError; there is no other failure.
\<close>

theorem format_selector_labels:
  "map (get_format_string ''video'') video_qualities
     = map (\<lambda>n. Inr (video_format n))
         [''2160'', ''1440'', ''1080'', ''720'', ''480'', ''360'', ''240'', ''144'']
   \<and> map (get_format_string ''audio'') audio_qualities
     = map (\<lambda>n. Inr (audio_format n)) [''320'', ''256'', ''192'', ''128'']
   \<and> map (get_format_string ''video'')
         [''2160p'', ''1440p'', ''1080p'', ''720p'', ''480p'', ''360p'', ''240p'', ''144p'']
     = map (\<lambda>n. Inr (video_format n))
         [''2160'', ''1440'', ''1080'', ''720'', ''480'', ''360'', ''240'', ''144'']
   \<and> map (get_format_string ''audio'') [''320 kbps'', ''256 kbps'', ''192 kbps'', ''128 kbps'']
     = map (\<lambda>n. Inr (audio_format n)) [''320'', ''256'', ''192'', ''128'']
   \<and> (\<forall>fmt q. (get_format_string fmt q = Inl IndexError) = (py_split q = []))
   \<and> (\<forall>fmt q t ts. py_split q = t # ts \<longrightarrow>
         get_format_string fmt q
           = Inr (if fmt = ''video'' then video_format (py_replace ''p'' '''' t)
                  else audio_format (py_replace ''kbps'' '''' t)))"
proof (intro conjI allI impI)
  show "map (get_format_string ''video'') video_qualities
     = map (\<lambda>n. Inr (video_format n))
         [''2160'', ''1440'', ''1080'', ''720'', ''480'', ''360'', ''240'', ''144'']"
    by (simp add: video_qualities_def get_format_string_def first_token_def py_split_def
        py_isspace_def py_replace_def)
  show "map (get_format_string ''audio'') audio_qualities
     = map (\<lambda>n. Inr (audio_format n)) [''320'', ''256'', ''192'', ''128'']"
    by (simp add: audio_qualities_def get_format_string_def first_token_def py_split_def
        py_isspace_def py_replace_def)
  show "map (get_format_string ''video'')
         [''2160p'', ''1440p'', ''1080p'', ''720p'', ''480p'', ''360p'', ''240p'', ''144p'']
     = map (\<lambda>n. Inr (video_format n))
         [''2160'', ''1440'', ''1080'', ''720'', ''480'', ''360'', ''240'', ''144'']"
    by (simp add: get_format_string_def first_token_def py_split_def
        py_isspace_def py_replace_def)
  show "map (get_format_string ''audio'') [''320 kbps'', ''256 kbps'', ''192 kbps'', ''128 kbps'']
     = map (\<lambda>n. Inr (audio_format n)) [''320'', ''256'', ''192'', ''128'']"
    by (simp add: get_format_string_def first_token_def py_split_def
        py_isspace_def py_replace_def)
next
  fix fmt q
  show "(get_format_string fmt q = Inl IndexError) = (py_split q = [])"
    by (simp add: get_format_string_def first_token_def split: list.splits)
next
  fix fmt q t ts
  assume "py_split q = t # ts"
  then show "get_format_string fmt q
           = Inr (if fmt = ''video'' then video_format (py_replace ''p'' '''' t)
                  else audio_format (py_replace ''kbps'' '''' t))"
    by (simp add: get_format_string_def first_token_def)
qed

text \<open>The general parts of C5 at a blank label and at a combobox label.\<close>

theorem format_selector_labels_witness:
  "py_split [CHR 0xA0, CHR '' '', CHR 0x85] = [] \<and> get_format_string ''audio'' [CHR 0xA0, CHR '' '', CHR 0x85] = Inl IndexError
   \<and> py_split ''720p (HD)'' = [''720p'', ''(HD)'']
   \<and> get_format_string ''video'' ''720p (HD)'' = Inr (video_format ''720'')"
proof -
  have a: "py_split [CHR 0xA0, CHR '' '', CHR 0x85] = []"
    by (simp add: py_split_def py_isspace_def)
  have b: "py_split ''720p (HD)'' = [''720p'', ''(HD)'']"
    by (simp add: py_split_def py_isspace_def)
  have c: "py_replace ''p'' '''' ''720p'' = ''720''"
    by (simp add: py_replace_def)
  from format_selector_labels
  have d: "(get_format_string ''audio'' [CHR 0xA0, CHR '' '', CHR 0x85] = Inl IndexError) = (py_split [CHR 0xA0, CHR '' '', CHR 0x85] = [])"
    by blast
  from format_selector_labels b
  have e: "get_format_string ''video'' ''720p (HD)''
           = Inr (if ''video'' = ''video'' then video_format (py_replace ''p'' '''' ''720p'')
                  else audio_format (py_replace ''kbps'' '''' ''720p''))"
    by blast
  from a b c d e show ?thesis by simp
qed

text \<open>
  Labels outside the lists are not refused: an unlisted resolution, a video label given
  while audio is selected, and a label that does not start with a number each produce a
  format expression.
\<close>

theorem format_selector_counterexample:
  "''4320p'' \<notin> set video_qualities
   \<and> get_format_string ''video'' ''4320p''
       = Inr ''bestvideo[height<=4320]+bestaudio/best[height<=4320]/bestvideo+bestaudio/best''
   \<and> ''1080p (Full HD)'' \<notin> set audio_qualities
   \<and> get_format_string ''audio'' ''1080p (Full HD)'' = Inr ''bestaudio[abr<=1080p]/bestaudio/best''
   \<and> ''best one'' \<notin> set video_qualities
   \<and> get_format_string ''video'' ''best one''
       = Inr ''bestvideo[height<=best]+bestaudio/best[height<=best]/bestvideo+bestaudio/best''"
  by (simp add: video_qualities_def audio_qualities_def get_format_string_def first_token_def
      py_split_def py_isspace_def py_replace_def video_format_def audio_format_def)

section \<open>Starting while a run is active\<close>

text \<open>
  Claim C4, as the code has it. While a run is active, the start operation starts no
  second worker and shows no dialog; it leaves the downloading flag, the progress values
  and the list of downloads as they are, and asks the active run to stop: the stop flag
  is set and the status becomes "Stopping...".
\<close>

theorem start_while_active_requests_stop:
  "downloading st \<Longrightarrow>
     start_download st
       = st\<lparr> stop_requested := True, status_log := status_log st @ [(Stopping, Downloading)] \<rparr>
     \<and> workers_started (start_download st) = workers_started st
     \<and> downloading (start_download st)
     \<and> progress_sets (start_download st) = progress_sets st
     \<and> fetched (start_download st) = fetched st
     \<and> dialogs (start_download st) = dialogs st"
  by (simp add: start_download_def stop_download_def update_status_def)

text \<open>C4 at the state reached by one start with a URL entered.\<close>

theorem start_while_active_requests_stop_witness:
  "downloading (start_download (initial_state\<lparr> url_entry := ''https://example.com/v'' \<rparr>))
   \<and> stop_requested
        (start_download (start_download (initial_state\<lparr> url_entry := ''https://example.com/v'' \<rparr>)))
   \<and> workers_started
        (start_download (start_download (initial_state\<lparr> url_entry := ''https://example.com/v'' \<rparr>)))
       = 1"
proof -
  let ?s = "start_download (initial_state\<lparr> url_entry := ''https://example.com/v'' \<rparr>)"
  have a: "?s = initial_state\<lparr> url_entry := ''https://example.com/v'', downloading := True,
                  stop_requested := False, button_text := ''Stop'', workers_started := 1 \<rparr>"
    by (simp add: start_download_def initial_state_def py_strip_def py_isspace_def)
  then have d: "downloading ?s" by simp
  from start_while_active_requests_stop [OF d] a show ?thesis by simp
qed

text \<open>
  A second start during an active run does not leave the run's state unchanged: the stop
  flag, clear after the first start, is set after the second.
\<close>

theorem start_while_active_counterexample:
  "downloading (start_download (initial_state\<lparr> url_entry := ''https://example.com/v'' \<rparr>))
   \<and> \<not> stop_requested (start_download (initial_state\<lparr> url_entry := ''https://example.com/v'' \<rparr>))
   \<and> stop_requested
        (start_download (start_download (initial_state\<lparr> url_entry := ''https://example.com/v'' \<rparr>)))"
  by (simp add: start_download_def stop_download_def update_status_def initial_state_def
      py_strip_def py_isspace_def)

section \<open>Properties of the progress hook\<close>

lemma hook_progress_total:
  "hook_progress d =
     (if event_total d = 0 then Inr 0
      else Inr (of_int (event_downloaded d) / of_int (event_total d) * 100))"
  by (simp add: hook_progress_def py_truediv_def Let_def)

text \<open>
  Claim C6, as the code has it. The hook computes a percentage: 100 times downloaded
  bytes over the total, where the total is \<^verbatim>\<open>total_bytes\<close> when known and
  nonzero and otherwise \<^verbatim>\<open>total_bytes_estimate\<close>, and 0 when that total is zero.
  The division is never reached with a zero divisor, so no error arises. The value,
  taken as a fraction, lies between 0 and 1 when the downloaded bytes lie between 0 and
  the total; nothing clamps it otherwise. A hook call for a downloading event, with no
  stop requested, hands exactly this value to the progress bar.
\<close>

theorem hook_progress_guarded:
  "(event_total d \<noteq> 0 \<longrightarrow>
      hook_progress d = Inr (of_int (event_downloaded d) / of_int (event_total d) * 100))
   \<and> (event_total d = 0 \<longrightarrow> hook_progress d = Inr 0)
   \<and> (\<forall>err. hook_progress d \<noteq> Inl err)
   \<and> (0 \<le> event_downloaded d \<and> event_downloaded d \<le> event_total d \<longrightarrow>
        (\<exists>p. hook_progress d = Inr p \<and> 0 \<le> p / 100 \<and> p / 100 \<le> 1))
   \<and> (\<forall>n. ev_total_bytes d = Some n \<and> n \<noteq> 0 \<longrightarrow> event_total d = n)
   \<and> (\<forall>m. (ev_total_bytes d = None \<or> ev_total_bytes d = Some 0)
             \<and> ev_total_bytes_estimate d = Some m \<longrightarrow> event_total d = m)
   \<and> ((ev_total_bytes d = None \<or> ev_total_bytes d = Some 0)
        \<and> ev_total_bytes_estimate d = None \<longrightarrow> event_total d = 0)
   \<and> (\<not> stop_requested st \<and> ev_status d = Some ''downloading'' \<longrightarrow>
        (\<exists>p st'. hook_progress d = Inr p \<and> hook i n e d st = Inr st'
                  \<and> progress_sets st' = progress_sets st @ [p]))"
proof (intro conjI allI impI)
  show "hook_progress d = Inr (of_int (event_downloaded d) / of_int (event_total d) * 100)"
    if "event_total d \<noteq> 0"
    using that by (simp add: hook_progress_total)
  show "hook_progress d = Inr 0" if "event_total d = 0"
    using that by (simp add: hook_progress_total)
  show "hook_progress d \<noteq> Inl err" for err
    by (simp add: hook_progress_total)
  show "\<exists>p. hook_progress d = Inr p \<and> 0 \<le> p / 100 \<and> p / 100 \<le> 1"
    if h: "0 \<le> event_downloaded d \<and> event_downloaded d \<le> event_total d"
  proof (cases "event_total d = 0")
    case True
    then show ?thesis by (simp add: hook_progress_total)
  next
    case False
    with h have pos: "0 < event_total d" by linarith
    have a: "(0::rat) \<le> of_int (event_downloaded d) * 100 / of_int (event_total d)"
      using h pos by simp
    have b: "(of_int (event_downloaded d) :: rat) * 100 / of_int (event_total d) \<le> 100"
      using h pos by (simp add: divide_le_eq)
    from False a b show ?thesis by (simp add: hook_progress_total)
  qed
  show "event_total d = n" if "ev_total_bytes d = Some n \<and> n \<noteq> 0" for n
    using that by (simp add: event_total_def or_else_def)
  show "event_total d = m"
    if "(ev_total_bytes d = None \<or> ev_total_bytes d = Some 0)
        \<and> ev_total_bytes_estimate d = Some m" for m
    using that by (auto simp add: event_total_def or_else_def)
  show "event_total d = 0"
    if "(ev_total_bytes d = None \<or> ev_total_bytes d = Some 0)
        \<and> ev_total_bytes_estimate d = None"
    using that by (auto simp add: event_total_def or_else_def)
  show "\<exists>p st'. hook_progress d = Inr p \<and> hook i n e d st = Inr st'
                  \<and> progress_sets st' = progress_sets st @ [p]"
    if "\<not> stop_requested st \<and> ev_status d = Some ''downloading''"
    using that
    by (simp add: hook_def hook_progress_total update_status_def progress_set_def)
qed

text \<open>C6 at an event with 50 of 200 bytes downloaded.\<close>

theorem hook_progress_guarded_witness:
  "event_total \<lparr> ev_status = Some ''downloading'', ev_total_bytes = Some 200,
       ev_total_bytes_estimate = None, ev_downloaded_bytes = Some 50, ev_title = None,
       ev_speed = None \<rparr> = 200
   \<and> hook_progress \<lparr> ev_status = Some ''downloading'', ev_total_bytes = Some 200,
       ev_total_bytes_estimate = None, ev_downloaded_bytes = Some 50, ev_title = None,
       ev_speed = None \<rparr> = Inr 25"
proof -
  let ?d = "\<lparr> ev_status = Some ''downloading'', ev_total_bytes = Some 200,
       ev_total_bytes_estimate = None, ev_downloaded_bytes = Some 50, ev_title = None,
       ev_speed = None \<rparr>"
  have t: "event_total ?d = 200" by (simp add: event_total_def or_else_def)
  have dl: "event_downloaded ?d = 50" by (simp add: event_downloaded_def)
  from t have nz: "event_total ?d \<noteq> 0" by simp
  from hook_progress_guarded [of ?d] nz
  have "hook_progress ?d = Inr (of_int (event_downloaded ?d) / of_int (event_total ?d) * 100)"
    by blast
  with t dl show ?thesis by simp
qed

text \<open>
  With 150 bytes downloaded of a total of 100 the value is 150 percent, a fraction above
  1. With \<^verbatim>\<open>total_bytes\<close> unknown and an estimate of 400 the value is not 0 but
  25. And the value for 50 of 200 bytes is the percentage 25, not the fraction 1/4.
\<close>

theorem hook_progress_counterexample:
  "hook_progress \<lparr> ev_status = Some ''downloading'', ev_total_bytes = Some 100,
       ev_total_bytes_estimate = None, ev_downloaded_bytes = Some 150, ev_title = None,
       ev_speed = None \<rparr> = Inr 150
   \<and> \<not> ((150::rat) / 100 \<le> 1)
   \<and> hook_progress \<lparr> ev_status = Some ''downloading'', ev_total_bytes = None,
       ev_total_bytes_estimate = Some 400, ev_downloaded_bytes = Some 100, ev_title = None,
       ev_speed = None \<rparr> = Inr 25
   \<and> hook_progress \<lparr> ev_status = Some ''downloading'', ev_total_bytes = Some 200,
       ev_total_bytes_estimate = None, ev_downloaded_bytes = Some 50, ev_title = None,
       ev_speed = None \<rparr> = Inr 25
   \<and> \<not> ((25::rat) \<le> 1)"
  by (simp add: hook_progress_def event_total_def event_downloaded_def or_else_def
      py_truediv_def)

section \<open>Properties of the resolution\<close>

lemma collect_entries_filter:
  "collect_entries es = map (\<lambda>x. entry_of (the x)) (filter entry_truthy es)"
proof (induction es)
  case Nil
  show ?case by simp
next
  case (Cons x es)
  then show ?case by (cases x) (simp_all add: entry_truthy_def)
qed

lemma resolve_collection:
  "info_entries d = Some es \<Longrightarrow>
     resolve_entries url (ExtractReturns (Some d))
       = (collect_entries es, dict_get (info_fields d) ''title'' (PStr ''Playlist''))"
  by (simp add: resolve_entries_def info_truthy_def)

lemma download_video_total:
  "download_video w st = Finished r \<Longrightarrow>
     r_total r = length (fst (resolve_entries (py_strip (url_entry st)) (extract_result w)))"
  by (auto simp add: download_video_def Let_def split: if_splits sum.splits)

text \<open>
  Claim C9, as the code has it. For a collection, the entries resolved are exactly the
  entries of the listing that are truthy (neither None nor a dictionary without keys),
  one unit each, in the order of the listing; their positions are the loop indices. So
  the number of units, which is the run's total, is at most the number of listed entries
  and smaller as soon as one listed entry is falsy.
\<close>

theorem collection_drops_falsy_entries:
  "info_entries d = Some es \<Longrightarrow>
     fst (resolve_entries url (ExtractReturns (Some d)))
       = map (\<lambda>x. entry_of (the x)) (filter entry_truthy es)
     \<and> length (fst (resolve_entries url (ExtractReturns (Some d)))) \<le> length es
     \<and> ((\<exists>x \<in> set es. \<not> entry_truthy x) \<longrightarrow>
          length (fst (resolve_entries url (ExtractReturns (Some d)))) < length es)
     \<and> (\<forall>w st r. extract_result w = ExtractReturns (Some d) \<and> download_video w st = Finished r
           \<longrightarrow> r_total r = length (filter entry_truthy es))"
proof -
  assume e: "info_entries d = Some es"
  have a: "fst (resolve_entries url (ExtractReturns (Some d)))
             = map (\<lambda>x. entry_of (the x)) (filter entry_truthy es)" for url
    using e by (simp add: resolve_collection collect_entries_filter)
  have b: "length (filter entry_truthy es) < length es" if "\<exists>x \<in> set es. \<not> entry_truthy x"
    using that by (auto intro: length_filter_less)
  have c: "r_total r = length (filter entry_truthy es)"
    if "extract_result w = ExtractReturns (Some d) \<and> download_video w st = Finished r"
    for w st r
    using that download_video_total [of w st r] a by simp
  from a b c show ?thesis by auto
qed

text \<open>C9 at a listing of three entries whose second is None.\<close>

theorem collection_drops_falsy_entries_witness:
  "fst (resolve_entries ''https://example.com/list''
          (ExtractReturns (Some \<lparr> info_fields = [(''title'', PStr ''Mix'')],
             info_entries = Some [Some [(''title'', PStr ''A''), (''url'', PStr ''https://example.com/a'')],
                                  None,
                                  Some [(''id'', PStr ''b1'')]] \<rparr>)))
     = [\<lparr> entry_title = PStr ''A'', entry_url = ''https://example.com/a'', entry_id = PNone \<rparr>,
        \<lparr> entry_title = PStr ''Unknown'', entry_url = ''https://youtube.com/watch?v=b1'',
          entry_id = PStr ''b1'' \<rparr>]
   \<and> length (fst (resolve_entries ''https://example.com/list''
          (ExtractReturns (Some \<lparr> info_fields = [(''title'', PStr ''Mix'')],
             info_entries = Some [Some [(''title'', PStr ''A''), (''url'', PStr ''https://example.com/a'')],
                                  None,
                                  Some [(''id'', PStr ''b1'')]] \<rparr>)))) < 3"
proof -
  let ?es = "[Some [(''title'', PStr ''A''), (''url'', PStr ''https://example.com/a'')],
              None, Some [(''id'', PStr ''b1'')]]"
  let ?d = "\<lparr> info_fields = [(''title'', PStr ''Mix'')], info_entries = Some ?es \<rparr>"
  have e: "info_entries ?d = Some ?es" by simp
  from collection_drops_falsy_entries [OF e, of "''https://example.com/list''"]
  have "fst (resolve_entries ''https://example.com/list'' (ExtractReturns (Some ?d)))
          = map (\<lambda>x. entry_of (the x)) (filter entry_truthy ?es)
         \<and> ((\<exists>x \<in> set ?es. \<not> entry_truthy x) \<longrightarrow>
              length (fst (resolve_entries ''https://example.com/list''
                             (ExtractReturns (Some ?d)))) < length ?es)"
    by blast
  then show ?thesis
    by (simp add: entry_truthy_def entry_of_def dict_get_def py_or_def)
qed

text \<open>
  A listing of two entries, neither of them None, the first a dictionary without keys:
  only one unit is resolved.
\<close>

theorem collection_entries_counterexample:
  "fst (resolve_entries ''https://example.com/list''
          (ExtractReturns (Some \<lparr> info_fields = [(''title'', PStr ''Mix'')],
             info_entries = Some [Some [], Some [(''id'', PStr ''b1'')]] \<rparr>)))
     = [\<lparr> entry_title = PStr ''Unknown'', entry_url = ''https://youtube.com/watch?v=b1'',
          entry_id = PStr ''b1'' \<rparr>]
   \<and> filter (\<lambda>x. x \<noteq> None) [Some ([] :: pydict), Some [(''id'', PStr ''b1'')]]
     = [Some [], Some [(''id'', PStr ''b1'')]]"
  by (simp add: resolve_entries_def info_truthy_def entry_of_def dict_get_def py_or_def)

section \<open>The loop, one iteration at a time\<close>

lemma download_loop_stop_top:
  "stop_requested (app ls) \<Longrightarrow>
     download_loop be n i (e # rest) ls = ls\<lparr> trail := trail ls @ [StopAtTop] \<rparr>"
  by simp

lemma download_loop_returned:
  assumes "\<not> stop_requested (app ls)"
    and "ydl_download (hook i n e) (fst (be i (entry_url e))) (snd (be i (entry_url e)))
           ((app ls)\<lparr> fetched := fetched (app ls) @ [entry_url e] \<rparr>) = (None, st2)"
  shows "download_loop be n i (e # rest) ls
           = download_loop be n (i + 1) rest
               (ls\<lparr> app := st2, completed_count := completed_count ls + 1,
                    trail := trail ls @ [Returned] \<rparr>)"
  using assms by (simp add: Let_def)

lemma download_loop_raised:
  assumes "\<not> stop_requested (app ls)"
    and "ydl_download (hook i n e) (fst (be i (entry_url e))) (snd (be i (entry_url e)))
           ((app ls)\<lparr> fetched := fetched (app ls) @ [entry_url e] \<rparr>) = (Some msg, st2)"
  shows "download_loop be n i (e # rest) ls
           = (if py_in stop_message msg
              then ls\<lparr> app := st2, trail := trail ls @ [RaisedBreak msg] \<rparr>
              else download_loop be n (i + 1) rest
                     (ls\<lparr> app := st2, trail := trail ls @ [RaisedContinue msg] \<rparr>))"
  using assms by (simp add: Let_def)


text \<open>From here on the loop is unfolded only through the lemmas above.\<close>

declare download_loop.simps(2) [simp del]

lemma download_loop_fetched_single:
  "\<not> stop_requested (app ls) \<Longrightarrow>
     fetched (app (download_loop be n i [e] ls)) = fetched (app ls) @ [entry_url e]
     \<and> length (trail (download_loop be n i [e] ls)) = length (trail ls) + 1"
proof -
  assume ns: "\<not> stop_requested (app ls)"
  let ?st1 = "(app ls)\<lparr> fetched := fetched (app ls) @ [entry_url e] \<rparr>"
  let ?r = "ydl_download (hook i n e) (fst (be i (entry_url e))) (snd (be i (entry_url e))) ?st1"
  have f: "fetched (snd ?r) = fetched (app ls) @ [entry_url e]"
    by (simp add: ydl_download_fetched)
  obtain x st2 where r: "?r = (x, st2)" by (cases ?r)
  with f have f2: "fetched st2 = fetched (app ls) @ [entry_url e]" by simp
  show ?thesis
  proof (cases x)
    case None
    with r ns f2 show ?thesis by (simp add: download_loop_returned)
  next
    case (Some msg)
    with r ns f2 show ?thesis by (simp add: download_loop_raised)
  qed
qed

section \<open>The worker in terms of its loop\<close>

lemma state_after_resolving_fields [simp]:
  "stop_requested (state_after_resolving w st)
     = (stop_requested st \<or> (stop_while_resolving w \<and> downloading st))"
  "downloading (state_after_resolving w st) = downloading st"
  "fetched (state_after_resolving w st) = fetched st"
  "progress_sets (state_after_resolving w st) = progress_sets st"
  "dialogs (state_after_resolving w st) = dialogs st"
  "format_type (state_after_resolving w st) = format_type st"
  "quality_var (state_after_resolving w st) = quality_var st"
  by (auto simp add: state_after_resolving_def Let_def)

lemma get_format_string_token:
  "py_split q \<noteq> [] \<Longrightarrow> \<exists>fmt. get_format_string ft q = Inr fmt"
  by (cases "py_split q") (simp_all add: get_format_string_def first_token_def)

lemma download_video_finished:
  assumes "py_strip (url_entry st) \<noteq> []" and "ffmpeg_ok st"
    and "py_split (quality_var st) \<noteq> []"
  shows "download_video w st =
           Finished
             \<lparr> final_state = reset_download_state
                 (final_report (open_folder_answer w) (completed_count (run_loop w st))
                    (length (fst (resolve_entries (py_strip (url_entry st)) (extract_result w))))
                    (app (run_loop w st))),
               r_completed = completed_count (run_loop w st),
               r_total = length (fst (resolve_entries (py_strip (url_entry st)) (extract_result w))),
               r_trail = trail (run_loop w st),
               r_cancelled = stop_requested (app (run_loop w st)) \<rparr>"
proof -
  from assms(3) obtain fmt where
    "get_format_string (format_type st) (quality_var st) = Inr fmt"
    using get_format_string_token by blast
  with assms(1,2) show ?thesis
    by (simp add: download_video_def Let_def)
qed

section \<open>Empty resolution\<close>

lemma resolve_raises:
  "resolve_entries url (ExtractRaises msg)
     = ([\<lparr> entry_title = PStr ''Unknown'', entry_url = url, entry_id = PNone \<rparr>], PNone)"
  by (simp add: resolve_entries_def)

lemma resolve_falsy:
  "\<not> info_truthy info \<Longrightarrow> resolve_entries url (ExtractReturns info) = ([], PNone)"
  by (simp add: resolve_entries_def)

text \<open>
  Claim C10, as the code has it. When \<^verbatim>\<open>extract_info\<close> returns None or a
  dictionary without keys, no entry is resolved, not even the fallback entry. If no stop
  was requested, the run ends at once as a success: "Completed 0/0", progress set to 100
  (and then reset to 0), the success dialog for 0 videos, nothing downloaded. If a stop
  was requested while the URL was being resolved, the same run ends as cancelled, and
  the progress is only reset.
\<close>

theorem empty_info_reports_success:
  "\<not> info_truthy info \<Longrightarrow>
     resolve_entries url (ExtractReturns info) = ([], PNone)
     \<and> (extract_result w = ExtractReturns info \<and> py_strip (url_entry st) \<noteq> [] \<and> ffmpeg_ok st
          \<and> py_split (quality_var st) \<noteq> [] \<and> \<not> stop_requested st
          \<and> \<not> stop_while_resolving w \<longrightarrow>
          run_status (download_video w st) = Some Completed
          \<and> run_counts (download_video w st) = Some (0, 0)
          \<and> run_outcomes (download_video w st) = Some []
          \<and> run_cancelled (download_video w st) = Some False
          \<and> progress_sets (run_state (download_video w st)) = progress_sets st @ [100, 0]
          \<and> status_log (run_state (download_video w st))
              = status_log st @ [(FetchingInfo, Downloading), (CompletedAll 0 0, Success)]
          \<and> dialogs (run_state (download_video w st)) = dialogs st @ [SuccessMany 0]
          \<and> fetched (run_state (download_video w st)) = fetched st)
     \<and> (extract_result w = ExtractReturns info \<and> py_strip (url_entry st) \<noteq> [] \<and> ffmpeg_ok st
          \<and> py_split (quality_var st) \<noteq> [] \<and> downloading st
          \<and> stop_while_resolving w \<longrightarrow>
          run_status (download_video w st) = Some Cancelled
          \<and> run_counts (download_video w st) = Some (0, 0)
          \<and> run_cancelled (download_video w st) = Some True
          \<and> progress_sets (run_state (download_video w st)) = progress_sets st @ [0]
          \<and> fetched (run_state (download_video w st)) = fetched st)"
proof (intro conjI impI)
  assume nt: "\<not> info_truthy info"
  then show "resolve_entries url (ExtractReturns info) = ([], PNone)"
    by (rule resolve_falsy)
next
  assume nt: "\<not> info_truthy info"
  assume h: "extract_result w = ExtractReturns info \<and> py_strip (url_entry st) \<noteq> [] \<and> ffmpeg_ok st
          \<and> py_split (quality_var st) \<noteq> [] \<and> \<not> stop_requested st
          \<and> \<not> stop_while_resolving w"
  then obtain fmt where fmt: "get_format_string (format_type st) (quality_var st) = Inr fmt"
    using get_format_string_token by blast
  have dv: "download_video w st = Finished
     \<lparr> final_state = reset_download_state
         (final_report (open_folder_answer w) 0 0 (update_status FetchingInfo Downloading st)),
       r_completed = 0, r_total = 0, r_trail = [], r_cancelled = False \<rparr>"
    using h fmt nt
    by (simp add: download_video_def run_loop_def state_after_resolving_def resolve_falsy Let_def)
  show "run_status (download_video w st) = Some Completed"
    using h by (simp add: dv run_status_def final_status_of_def final_report_status)
  show "run_counts (download_video w st) = Some (0, 0)"
    by (simp add: dv run_counts_def)
  show "run_outcomes (download_video w st) = Some []"
    by (simp add: dv run_outcomes_def outcomes_def)
  show "run_cancelled (download_video w st) = Some False"
    by (simp add: dv run_cancelled_def)
  show "progress_sets (run_state (download_video w st)) = progress_sets st @ [100, 0]"
    using h by (simp add: dv run_state_def final_report_progress)
  show "status_log (run_state (download_video w st))
              = status_log st @ [(FetchingInfo, Downloading), (CompletedAll 0 0, Success)]"
    using h by (simp add: dv run_state_def final_report_status)
  show "dialogs (run_state (download_video w st)) = dialogs st @ [SuccessMany 0]"
    using h by (simp add: dv run_state_def final_report_dialogs)
  show "fetched (run_state (download_video w st)) = fetched st"
    by (simp add: dv run_state_def)
next
  assume nt: "\<not> info_truthy info"
  assume h: "extract_result w = ExtractReturns info \<and> py_strip (url_entry st) \<noteq> [] \<and> ffmpeg_ok st
          \<and> py_split (quality_var st) \<noteq> [] \<and> downloading st
          \<and> stop_while_resolving w"
  then obtain fmt where fmt: "get_format_string (format_type st) (quality_var st) = Inr fmt"
    using get_format_string_token by blast
  have dv: "download_video w st = Finished
     \<lparr> final_state = reset_download_state
         (final_report (open_folder_answer w) 0 0
            (stop_download (update_status FetchingInfo Downloading st))),
       r_completed = 0, r_total = 0, r_trail = [], r_cancelled = True \<rparr>"
    using h fmt nt
    by (simp add: download_video_def run_loop_def state_after_resolving_def resolve_falsy Let_def)
  show "run_status (download_video w st) = Some Cancelled"
    using h by (simp add: dv run_status_def final_status_of_def final_report_status)
  show "run_counts (download_video w st) = Some (0, 0)"
    by (simp add: dv run_counts_def)
  show "run_cancelled (download_video w st) = Some True"
    by (simp add: dv run_cancelled_def)
  show "progress_sets (run_state (download_video w st)) = progress_sets st @ [0]"
    using h by (simp add: dv run_state_def final_report_progress)
  show "fetched (run_state (download_video w st)) = fetched st"
    by (simp add: dv run_state_def)
qed


text \<open>C10 for a listing that returns None, without and with a stop request.\<close>

theorem empty_info_reports_success_witness:
  "run_status
     (download_video
        \<lparr> extract_result = ExtractReturns None, stop_while_resolving = False,
          fetch_behaviour = (\<lambda>i u. ([], FetchReturns)), open_folder_answer = False \<rparr>
        (initial_state\<lparr> url_entry := ''https://example.com/v'', downloading := True \<rparr>))
     = Some Completed
   \<and> progress_sets (run_state
        (download_video
           \<lparr> extract_result = ExtractReturns None, stop_while_resolving = False,
             fetch_behaviour = (\<lambda>i u. ([], FetchReturns)), open_folder_answer = False \<rparr>
           (initial_state\<lparr> url_entry := ''https://example.com/v'', downloading := True \<rparr>)))
     = [100, 0]
   \<and> run_status
     (download_video
        \<lparr> extract_result = ExtractReturns None, stop_while_resolving = True,
          fetch_behaviour = (\<lambda>i u. ([], FetchReturns)), open_folder_answer = False \<rparr>
        (initial_state\<lparr> url_entry := ''https://example.com/v'', downloading := True \<rparr>))
     = Some Cancelled"
proof -
  let ?w = "\<lparr> extract_result = ExtractReturns None, stop_while_resolving = False,
             fetch_behaviour = (\<lambda>i u. ([], FetchReturns)), open_folder_answer = False \<rparr>"
  let ?w' = "\<lparr> extract_result = ExtractReturns None, stop_while_resolving = True,
             fetch_behaviour = (\<lambda>i u. ([], FetchReturns)), open_folder_answer = False \<rparr>"
  let ?st = "initial_state\<lparr> url_entry := ''https://example.com/v'', downloading := True \<rparr>"
  have nt: "\<not> info_truthy None" by (simp add: info_truthy_def)
  have u0: "py_strip ''https://example.com/v'' \<noteq> []"
    by (simp add: py_strip_def py_isspace_def)
  have q: "py_split ''1080p (Full HD)'' \<noteq> []"
    by (simp add: py_split_def py_isspace_def)
  have h: "extract_result ?w = ExtractReturns None \<and> py_strip (url_entry ?st) \<noteq> []
        \<and> ffmpeg_ok ?st \<and> py_split (quality_var ?st) \<noteq> [] \<and> \<not> stop_requested ?st
        \<and> \<not> stop_while_resolving ?w"
    using u0 q by (simp add: initial_state_def)
  have h': "extract_result ?w' = ExtractReturns None \<and> py_strip (url_entry ?st) \<noteq> []
        \<and> ffmpeg_ok ?st \<and> py_split (quality_var ?st) \<noteq> [] \<and> downloading ?st
        \<and> stop_while_resolving ?w'"
    using u0 q by (simp add: initial_state_def)
  from empty_info_reports_success [OF nt, of "''x''" ?w ?st] h
  have a: "run_status (download_video ?w ?st) = Some Completed
           \<and> progress_sets (run_state (download_video ?w ?st)) = progress_sets ?st @ [100, 0]"
    by blast
  from empty_info_reports_success [OF nt, of "''x''" ?w' ?st] h'
  have b: "run_status (download_video ?w' ?st) = Some Cancelled"
    by blast
  from a b show ?thesis by (simp add: initial_state_def)
qed

text \<open>
  A listing that returns None while the user asks for a stop: the run is reported as
  cancelled, and 100 is never given to the progress bar.
\<close>

theorem empty_info_counterexample:
  "run_status
     (download_video
        \<lparr> extract_result = ExtractReturns None, stop_while_resolving = True,
          fetch_behaviour = (\<lambda>i u. ([], FetchReturns)), open_folder_answer = False \<rparr>
        (initial_state\<lparr> url_entry := ''https://example.com/v'', downloading := True \<rparr>))
     = Some Cancelled
   \<and> progress_sets (run_state
        (download_video
           \<lparr> extract_result = ExtractReturns None, stop_while_resolving = True,
             fetch_behaviour = (\<lambda>i u. ([], FetchReturns)), open_folder_answer = False \<rparr>
           (initial_state\<lparr> url_entry := ''https://example.com/v'', downloading := True \<rparr>)))
     = [0]
   \<and> status_log (run_state
        (download_video
           \<lparr> extract_result = ExtractReturns None, stop_while_resolving = True,
             fetch_behaviour = (\<lambda>i u. ([], FetchReturns)), open_folder_answer = False \<rparr>
           (initial_state\<lparr> url_entry := ''https://example.com/v'', downloading := True \<rparr>)))
     = [(FetchingInfo, Downloading), (Stopping, Downloading), (DownloadCancelled, Ready)]"
  by (simp add: download_video_def run_loop_def state_after_resolving_def resolve_entries_def
      info_truthy_def get_format_string_def
      first_token_def py_split_def py_isspace_def py_strip_def initial_state_def Let_def
      run_status_def run_state_def final_status_of_def final_report_def stop_download_def
      update_status_def reset_download_state_def progress_set_def)

section \<open>Progress values of one download\<close>

lemma hook_value_total:
  "hook_value d =
     (if event_total d = 0 then 0
      else of_int (event_downloaded d) / of_int (event_total d) * 100)"
  by (simp add: hook_value_def hook_progress_total)

lemma hook_Inr_progress:
  "hook i n e d st = Inr st' \<Longrightarrow>
     progress_sets st' =
       (if ev_status d = Some ''downloading'' then progress_sets st @ [hook_value d]
        else progress_sets st)"
  by (auto simp add: hook_def hook_value_def hook_progress_total Let_def split: if_splits)

lemma ydl_download_progress_prefix:
  "\<exists>k. progress_sets (snd (ydl_download (hook i n e) ss en st))
         = progress_sets st @ map hook_value (take k (downloading_events ss))"
proof (induction ss arbitrary: st)
  case Nil
  show ?case by (cases en) simp_all
next
  case (Cons s ss)
  show ?case
  proof (cases s)
    case UiStop
    from Cons [of "stop_download st"] UiStop show ?thesis by simp
  next
    case (HookCall d)
    show ?thesis
    proof (cases "hook i n e d st")
      case (Inl m)
      with HookCall have "progress_sets (snd (ydl_download (hook i n e) (s # ss) en st))
         = progress_sets st @ map hook_value (take 0 (downloading_events (s # ss)))"
        by simp
      then show ?thesis by blast
    next
      case (Inr st')
      from Cons [of st'] obtain k where
        k: "progress_sets (snd (ydl_download (hook i n e) ss en st'))
              = progress_sets st' @ map hook_value (take k (downloading_events ss))"
        by blast
      show ?thesis
      proof (cases "ev_status d = Some ''downloading''")
        case True
        with Inr HookCall k hook_Inr_progress [OF Inr]
        have "progress_sets (snd (ydl_download (hook i n e) (s # ss) en st))
         = progress_sets st @ map hook_value (take (Suc k) (downloading_events (s # ss)))"
          by simp
        then show ?thesis by blast
      next
        case False
        with Inr HookCall k hook_Inr_progress [OF Inr]
        have "progress_sets (snd (ydl_download (hook i n e) (s # ss) en st))
         = progress_sets st @ map hook_value (take k (downloading_events (s # ss)))"
          by simp
        then show ?thesis by blast
      qed
    qed
  qed
qed

lemma ydl_download_progress_all:
  "UiStop \<notin> set ss \<Longrightarrow> \<not> stop_requested st \<Longrightarrow>
     progress_sets (snd (ydl_download (hook i n e) ss en st))
       = progress_sets st @ map hook_value (downloading_events ss)"
proof (induction ss arbitrary: st)
  case Nil
  show ?case by (cases en) simp_all
next
  case (Cons s ss)
  show ?case
  proof (cases s)
    case UiStop
    with Cons.prems show ?thesis by simp
  next
    case (HookCall d)
    show ?thesis
    proof (cases "hook i n e d st")
      case (Inl m)
      with Cons.prems show ?thesis by (auto dest: hook_Inl)
    next
      case (Inr st')
      then have ns: "\<not> stop_requested st'" by (auto dest: hook_Inr)
      from Cons.prems have "UiStop \<notin> set ss" by simp
      from Cons.IH [OF this ns] Inr HookCall hook_Inr_progress [OF Inr]
      show ?thesis by simp
    qed
  qed
qed

lemma hook_value_mono:
  assumes "event_total a = T" "event_total b = T" "0 \<le> T"
    and "event_downloaded a \<le> event_downloaded b"
  shows "hook_value a \<le> hook_value b"
proof (cases "T = 0")
  case True
  with assms show ?thesis by (simp add: hook_value_total)
next
  case False
  with assms have "0 < T" by simp
  with assms show ?thesis
    by (simp add: hook_value_total divide_le_cancel)
qed

lemma sorted_hook_values:
  assumes "sorted (map event_downloaded evs)"
    and "\<forall>d \<in> set evs. event_total d = T" and "0 \<le> T"
  shows "sorted (map hook_value evs)"
  using assms
proof (induction evs)
  case Nil
  show ?case by simp
next
  case (Cons a evs)
  then have "sorted (map hook_value evs)" by simp
  moreover have "hook_value a \<le> hook_value b" if "b \<in> set evs" for b
    using that Cons.prems by (auto intro: hook_value_mono [of a T b])
  ultimately show ?case by auto
qed

text \<open>
  Claim C8, as the code has it. During one download, if the downloaded bytes of the
  downloading events never decrease and all these events carry the same total, not
  negative, then the values the hook gives to the progress bar never decrease. The
  values are those of the first \<open>k\<close> downloading events, in order: all of them when
  no stop is requested, and the ones before the hook call that saw the stop flag
  otherwise.
\<close>

theorem progress_monotone_for_fixed_total:
  assumes "sorted (map event_downloaded (downloading_events ss))"
    and "\<forall>d \<in> set (downloading_events ss). event_total d = T"
    and "0 \<le> T"
  shows "\<exists>k. progress_sets (snd (ydl_download (hook i n e) ss en st))
               = progress_sets st @ map hook_value (take k (downloading_events ss))
             \<and> sorted (map hook_value (take k (downloading_events ss)))
             \<and> (UiStop \<notin> set ss \<and> \<not> stop_requested st \<longrightarrow>
                  take k (downloading_events ss) = downloading_events ss)"
proof -
  have s: "sorted (map hook_value (take k (downloading_events ss)))" for k
  proof -
    have "sorted (map hook_value (downloading_events ss))"
      using assms by (rule sorted_hook_values)
    then have "sorted (take k (map hook_value (downloading_events ss)))"
      by (rule sorted_wrt_take)
    then show ?thesis by (simp add: take_map)
  qed
  show ?thesis
  proof (cases "UiStop \<notin> set ss \<and> \<not> stop_requested st")
    case True
    then have "progress_sets (snd (ydl_download (hook i n e) ss en st))
       = progress_sets st @ map hook_value (take (length (downloading_events ss)) (downloading_events ss))"
      by (simp add: ydl_download_progress_all)
    with s [of "length (downloading_events ss)"] show ?thesis
      by (intro exI [of _ "length (downloading_events ss)"]) simp
  next
    case False
    from ydl_download_progress_prefix [of i n e ss en st] obtain k where
      "progress_sets (snd (ydl_download (hook i n e) ss en st))
         = progress_sets st @ map hook_value (take k (downloading_events ss))"
      by blast
    with s [of k] False show ?thesis by blast
  qed
qed


text \<open>C8 for two events of a 200-byte download, at 50 and at 100 bytes.\<close>

theorem progress_monotone_for_fixed_total_witness:
  "sorted (map event_downloaded (downloading_events
      [HookCall \<lparr> ev_status = Some ''downloading'', ev_total_bytes = Some 200,
          ev_total_bytes_estimate = None, ev_downloaded_bytes = Some 50, ev_title = None,
          ev_speed = None \<rparr>,
       HookCall \<lparr> ev_status = Some ''downloading'', ev_total_bytes = Some 200,
          ev_total_bytes_estimate = None, ev_downloaded_bytes = Some 100, ev_title = None,
          ev_speed = None \<rparr>]))
   \<and> progress_sets (snd (ydl_download
        (hook 0 1 \<lparr> entry_title = PStr ''Unknown'', entry_url = ''https://example.com/v'',
                    entry_id = PNone \<rparr>)
        [HookCall \<lparr> ev_status = Some ''downloading'', ev_total_bytes = Some 200,
            ev_total_bytes_estimate = None, ev_downloaded_bytes = Some 50, ev_title = None,
            ev_speed = None \<rparr>,
         HookCall \<lparr> ev_status = Some ''downloading'', ev_total_bytes = Some 200,
            ev_total_bytes_estimate = None, ev_downloaded_bytes = Some 100, ev_title = None,
            ev_speed = None \<rparr>]
        FetchReturns
        (initial_state\<lparr> url_entry := ''https://example.com/v'', downloading := True \<rparr>)))
     = [25, 50]"
proof -
  let ?d1 = "\<lparr> ev_status = Some ''downloading'', ev_total_bytes = Some 200,
          ev_total_bytes_estimate = None, ev_downloaded_bytes = Some 50, ev_title = None,
          ev_speed = None \<rparr>"
  let ?d2 = "\<lparr> ev_status = Some ''downloading'', ev_total_bytes = Some 200,
          ev_total_bytes_estimate = None, ev_downloaded_bytes = Some 100, ev_title = None,
          ev_speed = None \<rparr>"
  let ?ss = "[HookCall ?d1, HookCall ?d2]"
  let ?e = "\<lparr> entry_title = PStr ''Unknown'', entry_url = ''https://example.com/v'',
              entry_id = PNone \<rparr>"
  let ?st = "initial_state\<lparr> url_entry := ''https://example.com/v'', downloading := True \<rparr>"
  have evs: "downloading_events ?ss = [?d1, ?d2]" by simp
  have a: "sorted (map event_downloaded (downloading_events ?ss))"
    by (simp add: event_downloaded_def)
  have b: "\<forall>d \<in> set (downloading_events ?ss). event_total d = 200"
    by (simp add: event_total_def or_else_def)
  have c: "(0::int) \<le> 200" by simp
  have ns: "UiStop \<notin> set ?ss \<and> \<not> stop_requested ?st" by (simp add: initial_state_def)
  from progress_monotone_for_fixed_total [OF a b c, of 0 1 ?e FetchReturns ?st] ns
  have "progress_sets (snd (ydl_download (hook 0 1 ?e) ?ss FetchReturns ?st))
          = progress_sets ?st @ map hook_value (downloading_events ?ss)"
    by auto
  with a show ?thesis
    by (simp add: hook_value_total event_total_def event_downloaded_def or_else_def
        initial_state_def)
qed

text \<open>
  Two events with 50 and then 60 bytes downloaded, while the estimated total grows from
  100 to 200: the progress bar is given 50 and then 30.
\<close>

theorem progress_monotone_counterexample:
  "sorted (map event_downloaded (downloading_events
      [HookCall \<lparr> ev_status = Some ''downloading'', ev_total_bytes = None,
          ev_total_bytes_estimate = Some 100, ev_downloaded_bytes = Some 50, ev_title = None,
          ev_speed = None \<rparr>,
       HookCall \<lparr> ev_status = Some ''downloading'', ev_total_bytes = None,
          ev_total_bytes_estimate = Some 200, ev_downloaded_bytes = Some 60, ev_title = None,
          ev_speed = None \<rparr>]))
   \<and> progress_sets (snd (ydl_download
        (hook 0 1 \<lparr> entry_title = PStr ''Unknown'', entry_url = ''https://example.com/v'',
                    entry_id = PNone \<rparr>)
        [HookCall \<lparr> ev_status = Some ''downloading'', ev_total_bytes = None,
            ev_total_bytes_estimate = Some 100, ev_downloaded_bytes = Some 50, ev_title = None,
            ev_speed = None \<rparr>,
         HookCall \<lparr> ev_status = Some ''downloading'', ev_total_bytes = None,
            ev_total_bytes_estimate = Some 200, ev_downloaded_bytes = Some 60, ev_title = None,
            ev_speed = None \<rparr>]
        FetchReturns
        (initial_state\<lparr> url_entry := ''https://example.com/v'', downloading := True \<rparr>)))
     = [50, 30]
   \<and> \<not> sorted [50, 30 :: rat]"
  by (simp add: hook_def hook_progress_def event_total_def event_downloaded_def or_else_def
      py_truediv_def initial_state_def update_status_def progress_set_def)

section \<open>The loop as a whole\<close>

lemma loop_step_no_stop:
  assumes "\<not> stop_requested (app ls)" and "UiStop \<notin> set (fst (be i (entry_url e)))"
  shows "\<exists>st2. \<not> stop_requested st2 \<and> fetched st2 = fetched (app ls) @ [entry_url e]
           \<and> downloading st2 = downloading (app ls)
           \<and> download_loop be n i (e # rest) ls =
               (case snd (be i (entry_url e)) of
                  FetchReturns \<Rightarrow>
                    download_loop be n (i + 1) rest
                      (ls\<lparr> app := st2, completed_count := completed_count ls + 1,
                           trail := trail ls @ [Returned] \<rparr>)
                | FetchRaises msg \<Rightarrow>
                    (if py_in stop_message msg
                     then ls\<lparr> app := st2, trail := trail ls @ [RaisedBreak msg] \<rparr>
                     else download_loop be n (i + 1) rest
                            (ls\<lparr> app := st2, trail := trail ls @ [RaisedContinue msg] \<rparr>)))"
proof -
  let ?st1 = "(app ls)\<lparr> fetched := fetched (app ls) @ [entry_url e] \<rparr>"
  let ?r = "ydl_download (hook i n e) (fst (be i (entry_url e))) (snd (be i (entry_url e))) ?st1"
  have ns1: "\<not> stop_requested ?st1" using assms(1) by simp
  from ydl_download_no_stop [OF assms(2) ns1, of i n e "snd (be i (entry_url e))"]
  have a: "fst ?r = end_result (snd (be i (entry_url e)))" and b: "\<not> stop_requested (snd ?r)"
    by simp_all
  have c: "fetched (snd ?r) = fetched (app ls) @ [entry_url e]"
    by (simp add: ydl_download_fetched)
  have d: "downloading (snd ?r) = downloading (app ls)"
    by (simp add: ydl_download_downloading)
  have r: "?r = (end_result (snd (be i (entry_url e))), snd ?r)"
    using a by (simp add: prod_eq_iff)
  have "download_loop be n i (e # rest) ls =
               (case snd (be i (entry_url e)) of
                  FetchReturns \<Rightarrow>
                    download_loop be n (i + 1) rest
                      (ls\<lparr> app := snd ?r, completed_count := completed_count ls + 1,
                           trail := trail ls @ [Returned] \<rparr>)
                | FetchRaises msg \<Rightarrow>
                    (if py_in stop_message msg
                     then ls\<lparr> app := snd ?r, trail := trail ls @ [RaisedBreak msg] \<rparr>
                     else download_loop be n (i + 1) rest
                            (ls\<lparr> app := snd ?r, trail := trail ls @ [RaisedContinue msg] \<rparr>)))"
  proof (cases "snd (be i (entry_url e))")
    case FetchReturns
    with r have "?r = (None, snd ?r)" by (simp add: end_result_def)
    with assms(1) FetchReturns show ?thesis
      using download_loop_returned [where ls = ls and be = be and i = i and n = n and e = e
          and rest = rest and ?st2.0 = "snd ?r"]
      by simp
  next
    case (FetchRaises msg)
    with r have "?r = (Some msg, snd ?r)" by (simp add: end_result_def)
    with assms(1) FetchRaises show ?thesis
      using download_loop_raised [where ls = ls and be = be and i = i and n = n and e = e
          and rest = rest and ?st2.0 = "snd ?r" and msg = msg]
      by simp
  qed
  with b c d show ?thesis by blast
qed

lemma ydl_download_append:
  "UiStop \<notin> set pre \<Longrightarrow> \<not> stop_requested st \<Longrightarrow>
     \<exists>st'. \<not> stop_requested st' \<and> downloading st' = downloading st \<and> fetched st' = fetched st
           \<and> (\<forall>ss en. ydl_download (hook i n e) (pre @ ss) en st
                        = ydl_download (hook i n e) ss en st')"
proof (induction pre arbitrary: st)
  case Nil
  then show ?case by auto
next
  case (Cons s pre)
  show ?case
  proof (cases s)
    case UiStop
    with Cons.prems show ?thesis by simp
  next
    case (HookCall d)
    show ?thesis
    proof (cases "hook i n e d st")
      case (Inl m)
      with Cons.prems show ?thesis by (auto dest: hook_Inl)
    next
      case (Inr st1)
      then have p: "\<not> stop_requested st1 \<and> fetched st1 = fetched st
                    \<and> downloading st1 = downloading st"
        by (auto dest: hook_Inr)
      from Cons.prems have "UiStop \<notin> set pre" by simp
      from Cons.IH [OF this, of st1] p obtain st' where
        "\<not> stop_requested st' \<and> downloading st' = downloading st1 \<and> fetched st' = fetched st1
         \<and> (\<forall>ss en. ydl_download (hook i n e) (pre @ ss) en st1
                      = ydl_download (hook i n e) ss en st')"
        by blast
      with p HookCall Inr show ?thesis by (intro exI [of _ st']) simp
    qed
  qed
qed




lemma py_in_stop_message: "py_in stop_message stop_message"
  by (simp add: stop_message_def)

lemma final_status_after_report:
  "final_status_of (reset_download_state (final_report a c n st))
     = Some (if stop_requested st then Cancelled
             else if c = n then Completed else PartiallyFailed)"
  by (simp add: final_status_of_def final_report_status)

section \<open>Failing units\<close>

text \<open>
  What the loop does with an error that does not carry the stop message: the error is
  passed over, \<^verbatim>\<open>completed_count\<close> stays as it is, and the loop goes on with the
  next unit. In a run over three units where no stop is requested, the first and third
  download return and the second raises such an error, the outcomes are succeeded,
  failed, succeeded, two of three are completed, and all three URLs were given to the
  backend.
\<close>

lemma error_without_stop_message_is_passed_over:
  "(\<not> stop_requested (app ls)
      \<and> ydl_download (hook i n e) (fst (be i (entry_url e))) (snd (be i (entry_url e)))
            ((app ls)\<lparr> fetched := fetched (app ls) @ [entry_url e] \<rparr>) = (Some msg, st2)
      \<and> \<not> py_in stop_message msg \<longrightarrow>
      download_loop be n i (e # rest) ls
        = download_loop be n (i + 1) rest
            (ls\<lparr> app := st2, trail := trail ls @ [RaisedContinue msg] \<rparr>)
      \<and> outcome_of (RaisedContinue msg) = Failed)
   \<and> (py_strip (url_entry st) \<noteq> [] \<and> ffmpeg_ok st \<and> py_split (quality_var st) \<noteq> []
        \<and> \<not> stop_requested st \<and> \<not> stop_while_resolving w
        \<and> fst (resolve_entries (py_strip (url_entry st)) (extract_result w)) = [e1, e2, e3]
        \<and> (\<forall>j u. UiStop \<notin> set (fst (fetch_behaviour w j u)))
        \<and> snd (fetch_behaviour w 0 (entry_url e1)) = FetchReturns
        \<and> snd (fetch_behaviour w 1 (entry_url e2)) = FetchRaises err
        \<and> \<not> py_in stop_message err
        \<and> snd (fetch_behaviour w 2 (entry_url e3)) = FetchReturns \<longrightarrow>
        run_outcomes (download_video w st) = Some [Succeeded, Failed, Succeeded]
        \<and> run_counts (download_video w st) = Some (2, 3)
        \<and> run_status (download_video w st) = Some PartiallyFailed
        \<and> run_cancelled (download_video w st) = Some False
        \<and> fetched (run_state (download_video w st))
            = fetched st @ [entry_url e1, entry_url e2, entry_url e3])"
proof (intro conjI impI)
  assume h: "\<not> stop_requested (app ls)
      \<and> ydl_download (hook i n e) (fst (be i (entry_url e))) (snd (be i (entry_url e)))
            ((app ls)\<lparr> fetched := fetched (app ls) @ [entry_url e] \<rparr>) = (Some msg, st2)
      \<and> \<not> py_in stop_message msg"
  then show "download_loop be n i (e # rest) ls
        = download_loop be n (i + 1) rest
            (ls\<lparr> app := st2, trail := trail ls @ [RaisedContinue msg] \<rparr>)"
    using download_loop_raised [where ls = ls and be = be and i = i and n = n and e = e
        and rest = rest and ?st2.0 = st2 and msg = msg]
    by simp
  show "outcome_of (RaisedContinue msg) = Failed" by simp
next
  assume h: "py_strip (url_entry st) \<noteq> [] \<and> ffmpeg_ok st \<and> py_split (quality_var st) \<noteq> []
        \<and> \<not> stop_requested st \<and> \<not> stop_while_resolving w
        \<and> fst (resolve_entries (py_strip (url_entry st)) (extract_result w)) = [e1, e2, e3]
        \<and> (\<forall>j u. UiStop \<notin> set (fst (fetch_behaviour w j u)))
        \<and> snd (fetch_behaviour w 0 (entry_url e1)) = FetchReturns
        \<and> snd (fetch_behaviour w 1 (entry_url e2)) = FetchRaises err
        \<and> \<not> py_in stop_message err
        \<and> snd (fetch_behaviour w 2 (entry_url e3)) = FetchReturns"
  let ?be = "fetch_behaviour w"
  let ?ls0 = "\<lparr> app = state_after_resolving w st, completed_count = 0, trail = [] \<rparr>"
  have rl: "run_loop w st = download_loop ?be 3 0 [e1, e2, e3] ?ls0"
    using h by (simp add: run_loop_def numeral_3_eq_3)
  have ns0: "\<not> stop_requested (app ?ls0)" using h by simp
  have u0: "UiStop \<notin> set (fst (?be 0 (entry_url e1)))" using h by simp
  from ns0 u0
    loop_step_no_stop [where ls = ?ls0 and be = ?be and i = 0 and n = 3 and e = e1
        and rest = "[e2, e3]"]
  obtain s1 where s1: "\<not> stop_requested s1" "fetched s1 = fetched st @ [entry_url e1]"
    and l1: "download_loop ?be 3 0 [e1, e2, e3] ?ls0
               = download_loop ?be 3 1 [e2, e3]
                   \<lparr> app = s1, completed_count = 1, trail = [Returned] \<rparr>"
    using h by auto
  let ?ls1 = "\<lparr> app = s1, completed_count = 1, trail = [Returned] \<rparr>"
  have ns1: "\<not> stop_requested (app ?ls1)" using s1 by simp
  have u1: "UiStop \<notin> set (fst (?be 1 (entry_url e2)))" using h by simp
  from ns1 u1
    loop_step_no_stop [where ls = ?ls1 and be = ?be and i = 1 and n = 3 and e = e2
        and rest = "[e3]"]
  obtain s2 where s2: "\<not> stop_requested s2"
      "fetched s2 = fetched st @ [entry_url e1, entry_url e2]"
    and l2: "download_loop ?be 3 1 [e2, e3] ?ls1
               = download_loop ?be 3 2 [e3]
                   \<lparr> app = s2, completed_count = 1, trail = [Returned, RaisedContinue err] \<rparr>"
    using h s1 by (auto simp add: numeral_2_eq_2)
  let ?ls2 = "\<lparr> app = s2, completed_count = 1, trail = [Returned, RaisedContinue err] \<rparr>"
  have ns2: "\<not> stop_requested (app ?ls2)" using s2 by simp
  have u2: "UiStop \<notin> set (fst (?be 2 (entry_url e3)))" using h by simp
  from ns2 u2
    loop_step_no_stop [where ls = ?ls2 and be = ?be and i = 2 and n = 3 and e = e3
        and rest = "[]"]
  obtain s3 where s3: "\<not> stop_requested s3"
      "fetched s3 = fetched st @ [entry_url e1, entry_url e2, entry_url e3]"
    and l3: "download_loop ?be 3 2 [e3] ?ls2
               = \<lparr> app = s3, completed_count = 2,
                   trail = [Returned, RaisedContinue err, Returned] \<rparr>"
    using h s2 by (auto simp add: numeral_2_eq_2)
  from rl l1 l2 l3 have L: "run_loop w st
      = \<lparr> app = s3, completed_count = 2, trail = [Returned, RaisedContinue err, Returned] \<rparr>"
    by simp
  from h have dv: "download_video w st =
           Finished
             \<lparr> final_state = reset_download_state
                 (final_report (open_folder_answer w) (completed_count (run_loop w st))
                    (length (fst (resolve_entries (py_strip (url_entry st)) (extract_result w))))
                    (app (run_loop w st))),
               r_completed = completed_count (run_loop w st),
               r_total = length (fst (resolve_entries (py_strip (url_entry st)) (extract_result w))),
               r_trail = trail (run_loop w st),
               r_cancelled = stop_requested (app (run_loop w st)) \<rparr>"
    by (intro download_video_finished) simp_all
  show "run_outcomes (download_video w st) = Some [Succeeded, Failed, Succeeded]"
    using h by (simp add: dv L run_outcomes_def outcomes_def)
  show "run_counts (download_video w st) = Some (2, 3)"
    using h by (simp add: dv L run_counts_def)
  show "run_status (download_video w st) = Some PartiallyFailed"
    using h s3 by (simp add: dv L run_status_def final_status_after_report)
  show "run_cancelled (download_video w st) = Some False"
    using s3 by (simp add: dv L run_cancelled_def)
  show "fetched (run_state (download_video w st))
            = fetched st @ [entry_url e1, entry_url e2, entry_url e3]"
    using s3 by (simp add: dv L run_state_def)
qed

text \<open>A list of three URLs whose second download ends with an HTTP error.\<close>

lemma error_without_stop_message_example:
  "run_outcomes
     (download_video
        \<lparr> extract_result = ExtractReturns (Some
            \<lparr> info_fields = [(''title'', PStr ''Mix'')],
              info_entries = Some [Some [(''url'', PStr ''https://example.com/1'')],
                                   Some [(''url'', PStr ''https://example.com/2'')],
                                   Some [(''url'', PStr ''https://example.com/3'')]] \<rparr>),
          stop_while_resolving = False,
          fetch_behaviour = (\<lambda>i u. if i = 1 then ([], FetchRaises ''HTTP Error 404: Not Found'')
                                     else ([], FetchReturns)),
          open_folder_answer = False \<rparr>
        (initial_state\<lparr> url_entry := ''https://example.com/list'', downloading := True \<rparr>))
     = Some [Succeeded, Failed, Succeeded]
   \<and> run_status
     (download_video
        \<lparr> extract_result = ExtractReturns (Some
            \<lparr> info_fields = [(''title'', PStr ''Mix'')],
              info_entries = Some [Some [(''url'', PStr ''https://example.com/1'')],
                                   Some [(''url'', PStr ''https://example.com/2'')],
                                   Some [(''url'', PStr ''https://example.com/3'')]] \<rparr>),
          stop_while_resolving = False,
          fetch_behaviour = (\<lambda>i u. if i = 1 then ([], FetchRaises ''HTTP Error 404: Not Found'')
                                     else ([], FetchReturns)),
          open_folder_answer = False \<rparr>
        (initial_state\<lparr> url_entry := ''https://example.com/list'', downloading := True \<rparr>))
     = Some PartiallyFailed"
proof -
  let ?info = "\<lparr> info_fields = [(''title'', PStr ''Mix'')],
              info_entries = Some [Some [(''url'', PStr ''https://example.com/1'')],
                                   Some [(''url'', PStr ''https://example.com/2'')],
                                   Some [(''url'', PStr ''https://example.com/3'')]] \<rparr>"
  let ?w = "\<lparr> extract_result = ExtractReturns (Some ?info),
          stop_while_resolving = False,
          fetch_behaviour = (\<lambda>i u. if i = 1 then ([], FetchRaises ''HTTP Error 404: Not Found'')
                                     else ([], FetchReturns)),
          open_folder_answer = False \<rparr>"
  let ?st = "initial_state\<lparr> url_entry := ''https://example.com/list'', downloading := True \<rparr>"
  let ?e1 = "\<lparr> entry_title = PStr ''Unknown'', entry_url = ''https://example.com/1'',
               entry_id = PNone \<rparr>"
  let ?e2 = "\<lparr> entry_title = PStr ''Unknown'', entry_url = ''https://example.com/2'',
               entry_id = PNone \<rparr>"
  let ?e3 = "\<lparr> entry_title = PStr ''Unknown'', entry_url = ''https://example.com/3'',
               entry_id = PNone \<rparr>"
  have u: "py_strip ''https://example.com/list'' = ''https://example.com/list''"
    by (simp add: py_strip_def py_isspace_def)
  have q: "py_split ''1080p (Full HD)'' \<noteq> []"
    by (simp add: py_split_def py_isspace_def)
  have r: "fst (resolve_entries ''https://example.com/list'' (ExtractReturns (Some ?info)))
             = [?e1, ?e2, ?e3]"
    by (simp add: resolve_entries_def info_truthy_def entry_of_def dict_get_def py_or_def)
  have m: "\<not> py_in stop_message ''HTTP Error 404: Not Found''"
    by (simp add: stop_message_def)
  have h: "py_strip (url_entry ?st) \<noteq> [] \<and> ffmpeg_ok ?st \<and> py_split (quality_var ?st) \<noteq> []
        \<and> \<not> stop_requested ?st \<and> \<not> stop_while_resolving ?w
        \<and> fst (resolve_entries (py_strip (url_entry ?st)) (extract_result ?w)) = [?e1, ?e2, ?e3]
        \<and> (\<forall>j u. UiStop \<notin> set (fst (fetch_behaviour ?w j u)))
        \<and> snd (fetch_behaviour ?w 0 (entry_url ?e1)) = FetchReturns
        \<and> snd (fetch_behaviour ?w 1 (entry_url ?e2)) = FetchRaises ''HTTP Error 404: Not Found''
        \<and> \<not> py_in stop_message ''HTTP Error 404: Not Found''
        \<and> snd (fetch_behaviour ?w 2 (entry_url ?e3)) = FetchReturns"
    using u q r m by (simp add: initial_state_def)
  from error_without_stop_message_is_passed_over
         [where st = ?st and w = ?w and ?e1.0 = ?e1 and ?e2.0 = ?e2 and ?e3.0 = ?e3
            and err = "''HTTP Error 404: Not Found''"] h
  show ?thesis by blast
qed

text \<open>
  Claim C1 holds of every error but one kind. Here no stop is requested at any time,
  and the second of three downloads raises a backend error whose message contains
  "Download stopped by user", as a file name built from such a title would. The loop
  takes the error for a stop and is left: the third URL is never given to the backend,
  one of three is completed, and since the stop flag is clear the run is reported as
  partly failed, not as cancelled. By the claim, and by the comment at the end of the
  \<^verbatim>\<open>except\<close> branch, the loop should have gone on to the third unit.
\<close>

theorem stop_message_in_error_leaves_loop:
  "\<not> stop_requested (initial_state\<lparr> url_entry := ''https://example.com/list'', downloading := True \<rparr>)
   \<and> run_outcomes
     (download_video
        \<lparr> extract_result = ExtractReturns (Some
            \<lparr> info_fields = [(''title'', PStr ''Mix'')],
              info_entries = Some [Some [(''url'', PStr ''https://example.com/1'')],
                                   Some [(''url'', PStr ''https://example.com/2'')],
                                   Some [(''url'', PStr ''https://example.com/3'')]] \<rparr>),
          stop_while_resolving = False,
          fetch_behaviour =
            (\<lambda>i u. if i = 1
                    then ([], FetchRaises ''ERROR: unable to open for writing: Download stopped by user.mp4'')
                    else ([], FetchReturns)),
          open_folder_answer = False \<rparr>
        (initial_state\<lparr> url_entry := ''https://example.com/list'', downloading := True \<rparr>))
     = Some [Succeeded, SkippedByCancellation, SkippedByCancellation]
   \<and> run_counts
     (download_video
        \<lparr> extract_result = ExtractReturns (Some
            \<lparr> info_fields = [(''title'', PStr ''Mix'')],
              info_entries = Some [Some [(''url'', PStr ''https://example.com/1'')],
                                   Some [(''url'', PStr ''https://example.com/2'')],
                                   Some [(''url'', PStr ''https://example.com/3'')]] \<rparr>),
          stop_while_resolving = False,
          fetch_behaviour =
            (\<lambda>i u. if i = 1
                    then ([], FetchRaises ''ERROR: unable to open for writing: Download stopped by user.mp4'')
                    else ([], FetchReturns)),
          open_folder_answer = False \<rparr>
        (initial_state\<lparr> url_entry := ''https://example.com/list'', downloading := True \<rparr>)) = Some (1, 3)
   \<and> run_cancelled
     (download_video
        \<lparr> extract_result = ExtractReturns (Some
            \<lparr> info_fields = [(''title'', PStr ''Mix'')],
              info_entries = Some [Some [(''url'', PStr ''https://example.com/1'')],
                                   Some [(''url'', PStr ''https://example.com/2'')],
                                   Some [(''url'', PStr ''https://example.com/3'')]] \<rparr>),
          stop_while_resolving = False,
          fetch_behaviour =
            (\<lambda>i u. if i = 1
                    then ([], FetchRaises ''ERROR: unable to open for writing: Download stopped by user.mp4'')
                    else ([], FetchReturns)),
          open_folder_answer = False \<rparr>
        (initial_state\<lparr> url_entry := ''https://example.com/list'', downloading := True \<rparr>)) = Some False
   \<and> run_status
     (download_video
        \<lparr> extract_result = ExtractReturns (Some
            \<lparr> info_fields = [(''title'', PStr ''Mix'')],
              info_entries = Some [Some [(''url'', PStr ''https://example.com/1'')],
                                   Some [(''url'', PStr ''https://example.com/2'')],
                                   Some [(''url'', PStr ''https://example.com/3'')]] \<rparr>),
          stop_while_resolving = False,
          fetch_behaviour =
            (\<lambda>i u. if i = 1
                    then ([], FetchRaises ''ERROR: unable to open for writing: Download stopped by user.mp4'')
                    else ([], FetchReturns)),
          open_folder_answer = False \<rparr>
        (initial_state\<lparr> url_entry := ''https://example.com/list'', downloading := True \<rparr>)) = Some PartiallyFailed
   \<and> fetched (run_state
     (download_video
        \<lparr> extract_result = ExtractReturns (Some
            \<lparr> info_fields = [(''title'', PStr ''Mix'')],
              info_entries = Some [Some [(''url'', PStr ''https://example.com/1'')],
                                   Some [(''url'', PStr ''https://example.com/2'')],
                                   Some [(''url'', PStr ''https://example.com/3'')]] \<rparr>),
          stop_while_resolving = False,
          fetch_behaviour =
            (\<lambda>i u. if i = 1
                    then ([], FetchRaises ''ERROR: unable to open for writing: Download stopped by user.mp4'')
                    else ([], FetchReturns)),
          open_folder_answer = False \<rparr>
        (initial_state\<lparr> url_entry := ''https://example.com/list'', downloading := True \<rparr>)))
     = [''https://example.com/1'', ''https://example.com/2'']"
  by (simp add: download_video_def run_loop_def state_after_resolving_def resolve_entries_def
      info_truthy_def entry_of_def dict_get_def py_or_def download_loop.simps
      get_format_string_def first_token_def py_split_def py_isspace_def py_strip_def
      initial_state_def Let_def run_outcomes_def run_cancelled_def run_counts_def
      run_status_def run_state_def outcomes_def final_status_of_def
      final_report_def stop_download_def update_status_def reset_download_state_def
      progress_set_def stop_message_def)

section \<open>Runs with a stop request\<close>

lemma undisturbed_paths_length [simp]: "length (undisturbed_paths be i es) = length es"
  by (induction es arbitrary: i) simp_all

lemma undisturbed_paths_append:
  "undisturbed_paths be i (pre @ es)
     = undisturbed_paths be i pre @ undisturbed_paths be (i + length pre) es"
  by (induction pre arbitrary: i) simp_all

lemma loop_state_updates:
  "ls\<lparr> app := a, completed_count := c, trail := t \<rparr>
     = \<lparr> app = a, completed_count = c, trail = t \<rparr>"
  "ls\<lparr> app := a, trail := t \<rparr>
     = \<lparr> app = a, completed_count = completed_count ls, trail = t \<rparr>"
  "ls\<lparr> trail := t \<rparr>
     = \<lparr> app = app ls, completed_count = completed_count ls, trail = t \<rparr>"
  "\<lparr> app = app ls, completed_count = completed_count ls, trail = trail ls \<rparr> = ls"
  by (cases ls, simp)+

lemma loop_step_passes_on:
  assumes "\<not> stop_requested (app ls)" and "UiStop \<notin> set (fst (be i (entry_url e)))"
    and "passes_on (snd (be i (entry_url e)))"
  shows "\<exists>s. \<not> stop_requested s \<and> downloading s = downloading (app ls)
           \<and> fetched s = fetched (app ls) @ [entry_url e]
           \<and> download_loop be n i (e # rest) ls =
               download_loop be n (Suc i) rest
                 \<lparr> app = s,
                   completed_count = completed_count ls
                     + length (filter (\<lambda>p. p = Returned) [path_of_end (snd (be i (entry_url e)))]),
                   trail = trail ls @ [path_of_end (snd (be i (entry_url e)))] \<rparr>"
proof -
  from assms(1,2)
    loop_step_no_stop [where ls = ls and be = be and i = i and n = n and e = e and rest = rest]
  obtain st2 where
    p: "\<not> stop_requested st2" "fetched st2 = fetched (app ls) @ [entry_url e]"
       "downloading st2 = downloading (app ls)" and
    eq: "download_loop be n i (e # rest) ls =
               (case snd (be i (entry_url e)) of
                  FetchReturns \<Rightarrow>
                    download_loop be n (i + 1) rest
                      (ls\<lparr> app := st2, completed_count := completed_count ls + 1,
                           trail := trail ls @ [Returned] \<rparr>)
                | FetchRaises msg \<Rightarrow>
                    (if py_in stop_message msg
                     then ls\<lparr> app := st2, trail := trail ls @ [RaisedBreak msg] \<rparr>
                     else download_loop be n (i + 1) rest
                            (ls\<lparr> app := st2, trail := trail ls @ [RaisedContinue msg] \<rparr>)))"
    by blast
  have "download_loop be n i (e # rest) ls =
               download_loop be n (Suc i) rest
                 \<lparr> app = st2,
                   completed_count = completed_count ls
                     + length (filter (\<lambda>p. p = Returned) [path_of_end (snd (be i (entry_url e)))]),
                   trail = trail ls @ [path_of_end (snd (be i (entry_url e)))] \<rparr>"
  proof (cases "snd (be i (entry_url e))")
    case FetchReturns
    with eq show ?thesis by (simp add: path_of_end_def loop_state_updates)
  next
    case (FetchRaises msg)
    with assms(3) have nm: "\<not> py_in stop_message msg" by (simp add: passes_on_def)
    with eq FetchRaises show ?thesis by (simp add: path_of_end_def loop_state_updates)
  qed
  with p show ?thesis by blast
qed

lemma download_loop_undisturbed:
  "undisturbed be i pre \<Longrightarrow> \<not> stop_requested (app ls) \<Longrightarrow>
     \<exists>s. \<not> stop_requested s \<and> downloading s = downloading (app ls)
         \<and> fetched s = fetched (app ls) @ map entry_url pre
         \<and> download_loop be n i (pre @ rest) ls =
             download_loop be n (i + length pre) rest
               \<lparr> app = s,
                 completed_count = completed_count ls
                   + length (filter (\<lambda>p. p = Returned) (undisturbed_paths be i pre)),
                 trail = trail ls @ undisturbed_paths be i pre \<rparr>"
proof (induction pre arbitrary: i ls)
  case Nil
  then show ?case by (intro exI [of _ "app ls"]) (simp add: loop_state_updates)
next
  case (Cons e pre)
  from Cons.prems have u: "UiStop \<notin> set (fst (be i (entry_url e)))"
    and po: "passes_on (snd (be i (entry_url e)))" and rest: "undisturbed be (Suc i) pre"
    by simp_all
  let ?pe = "path_of_end (snd (be i (entry_url e)))"
  from Cons.prems(2) u po
    loop_step_passes_on [where ls = ls and be = be and i = i and n = n and e = e
        and rest = "pre @ rest"]
  obtain s1 where
    s1: "\<not> stop_requested s1" "downloading s1 = downloading (app ls)"
        "fetched s1 = fetched (app ls) @ [entry_url e]" and
    eq1: "download_loop be n i (e # pre @ rest) ls =
            download_loop be n (Suc i) (pre @ rest)
              \<lparr> app = s1,
                completed_count = completed_count ls + length (filter (\<lambda>p. p = Returned) [?pe]),
                trail = trail ls @ [?pe] \<rparr>"
    by blast
  let ?ls1 = "\<lparr> app = s1,
                completed_count = completed_count ls + length (filter (\<lambda>p. p = Returned) [?pe]),
                trail = trail ls @ [?pe] \<rparr>"
  have ns1: "\<not> stop_requested (app ?ls1)" using s1 by simp
  from Cons.IH [OF rest ns1] obtain s where
    s: "\<not> stop_requested s" "downloading s = downloading (app ?ls1)"
       "fetched s = fetched (app ?ls1) @ map entry_url pre" and
    eq2: "download_loop be n (Suc i) (pre @ rest) ?ls1 =
            download_loop be n (Suc i + length pre) rest
              \<lparr> app = s,
                completed_count = completed_count ?ls1
                  + length (filter (\<lambda>p. p = Returned) (undisturbed_paths be (Suc i) pre)),
                trail = trail ?ls1 @ undisturbed_paths be (Suc i) pre \<rparr>"
    by blast
  from eq1 eq2 s s1 show ?case
    by (intro exI [of _ s]) simp
qed

lemma ydl_download_stopped_hook:
  "stop_requested st \<Longrightarrow> has_hook_call ss \<Longrightarrow>
     fst (ydl_download (hook i n e) ss en st) = Some stop_message"
proof (induction ss arbitrary: st)
  case Nil
  then show ?case by simp
next
  case (Cons s ss)
  show ?case
  proof (cases s)
    case UiStop
    with Cons show ?thesis by simp
  next
    case (HookCall d)
    with Cons.prems show ?thesis by (simp add: hook_stopped)
  qed
qed

lemma ydl_download_stopped_no_hook:
  "\<not> has_hook_call ss \<Longrightarrow> fst (ydl_download (hook i n e) ss en st) = end_result en"
proof (induction ss arbitrary: st)
  case Nil
  show ?case by (cases en) (simp_all add: end_result_def)
next
  case (Cons s ss)
  then show ?case by (cases s) simp_all
qed

lemma ydl_download_stop_inside:
  assumes "UiStop \<notin> set hs" and "\<not> stop_requested st" and "downloading st"
  shows "fst (ydl_download (hook i n e) (hs @ UiStop # ts) en st)
           = (if has_hook_call ts then Some stop_message else end_result en)
         \<and> stop_requested (snd (ydl_download (hook i n e) (hs @ UiStop # ts) en st))
         \<and> fetched (snd (ydl_download (hook i n e) (hs @ UiStop # ts) en st)) = fetched st"
proof -
  from ydl_download_append [OF assms(1,2), of i n e] obtain s' where
    s': "\<not> stop_requested s'" "downloading s' = downloading st" "fetched s' = fetched st" and
    ap: "\<forall>ss en. ydl_download (hook i n e) (hs @ ss) en st = ydl_download (hook i n e) ss en s'"
    by blast
  from ap have eq: "ydl_download (hook i n e) (hs @ UiStop # ts) en st
                      = ydl_download (hook i n e) ts en (stop_download s')"
    by simp
  have sd: "stop_requested (stop_download s')" using s' assms(3) by simp
  have a: "fst (ydl_download (hook i n e) ts en (stop_download s'))
             = (if has_hook_call ts then Some stop_message else end_result en)"
    using sd by (simp add: ydl_download_stopped_hook ydl_download_stopped_no_hook)
  have b: "stop_requested (snd (ydl_download (hook i n e) ts en (stop_download s')))"
    using sd by (rule ydl_download_stop_mono)
  from a b eq s' show ?thesis by (simp add: ydl_download_fetched)
qed


lemma loop_step_stop_after_hooks:
  assumes "\<not> stop_requested (app ls)" and "downloading (app ls)"
    and "fst (be i (entry_url e)) = hs @ UiStop # ts" and "UiStop \<notin> set hs"
    and "\<not> has_hook_call ts" and "passes_on (snd (be i (entry_url e)))"
  shows "\<exists>s. stop_requested s \<and> fetched s = fetched (app ls) @ [entry_url e]
           \<and> download_loop be n i (e # rest) ls =
               download_loop be n (Suc i) rest
                 \<lparr> app = s,
                   completed_count = completed_count ls
                     + length (filter (\<lambda>p. p = Returned) [path_of_end (snd (be i (entry_url e)))]),
                   trail = trail ls @ [path_of_end (snd (be i (entry_url e)))] \<rparr>"
proof -
  let ?st1 = "(app ls)\<lparr> fetched := fetched (app ls) @ [entry_url e] \<rparr>"
  let ?en = "snd (be i (entry_url e))"
  let ?r = "ydl_download (hook i n e) (fst (be i (entry_url e))) ?en ?st1"
  have ns1: "\<not> stop_requested ?st1" and d1: "downloading ?st1" using assms(1,2) by simp_all
  from ydl_download_stop_inside [OF assms(4) ns1 d1, of i n e ts ?en] assms(3,5)
  have a: "fst ?r = end_result ?en" and b: "stop_requested (snd ?r)"
    and c: "fetched (snd ?r) = fetched (app ls) @ [entry_url e]"
    by simp_all
  have r: "?r = (end_result ?en, snd ?r)" using a by (simp add: prod_eq_iff)
  have "download_loop be n i (e # rest) ls =
               download_loop be n (Suc i) rest
                 \<lparr> app = snd ?r,
                   completed_count = completed_count ls
                     + length (filter (\<lambda>p. p = Returned) [path_of_end ?en]),
                   trail = trail ls @ [path_of_end ?en] \<rparr>"
  proof (cases ?en)
    case FetchReturns
    with r have "?r = (None, snd ?r)" by (simp add: end_result_def)
    with assms(1) FetchReturns show ?thesis
      using download_loop_returned [where ls = ls and be = be and i = i and n = n and e = e
          and rest = rest and ?st2.0 = "snd ?r"]
      by (simp add: path_of_end_def loop_state_updates)
  next
    case (FetchRaises msg)
    with assms(6) have nm: "\<not> py_in stop_message msg" by (simp add: passes_on_def)
    from r FetchRaises have "?r = (Some msg, snd ?r)" by (simp add: end_result_def)
    with assms(1) FetchRaises nm show ?thesis
      using download_loop_raised [where ls = ls and be = be and i = i and n = n and e = e
          and rest = rest and ?st2.0 = "snd ?r" and msg = msg]
      by (simp add: path_of_end_def loop_state_updates)
  qed
  with b c show ?thesis by blast
qed

lemma loop_step_stop_before_hook:
  assumes "\<not> stop_requested (app ls)" and "downloading (app ls)"
    and "fst (be i (entry_url e)) = hs @ UiStop # ts" and "UiStop \<notin> set hs"
    and "has_hook_call ts"
  shows "\<exists>s. stop_requested s \<and> fetched s = fetched (app ls) @ [entry_url e]
           \<and> download_loop be n i (e # rest) ls =
               \<lparr> app = s, completed_count = completed_count ls,
                 trail = trail ls @ [RaisedBreak stop_message] \<rparr>"
proof -
  let ?st1 = "(app ls)\<lparr> fetched := fetched (app ls) @ [entry_url e] \<rparr>"
  let ?en = "snd (be i (entry_url e))"
  let ?r = "ydl_download (hook i n e) (fst (be i (entry_url e))) ?en ?st1"
  have ns1: "\<not> stop_requested ?st1" and d1: "downloading ?st1" using assms(1,2) by simp_all
  from ydl_download_stop_inside [OF assms(4) ns1 d1, of i n e ts ?en] assms(3,5)
  have a: "fst ?r = Some stop_message" and b: "stop_requested (snd ?r)"
    and c: "fetched (snd ?r) = fetched (app ls) @ [entry_url e]"
    by simp_all
  have r: "?r = (Some stop_message, snd ?r)" using a by (simp add: prod_eq_iff)
  with assms(1) py_in_stop_message
  have "download_loop be n i (e # rest) ls =
               \<lparr> app = snd ?r, completed_count = completed_count ls,
                 trail = trail ls @ [RaisedBreak stop_message] \<rparr>"
    using download_loop_raised [where ls = ls and be = be and i = i and n = n and e = e
        and rest = rest and ?st2.0 = "snd ?r" and msg = stop_message]
    by (simp add: loop_state_updates)
  with b c show ?thesis by blast
qed

lemma run_loop_unfold:
  "run_loop w st =
     download_loop (fetch_behaviour w)
       (length (fst (resolve_entries (py_strip (url_entry st)) (extract_result w)))) 0
       (fst (resolve_entries (py_strip (url_entry st)) (extract_result w)))
       \<lparr> app = state_after_resolving w st, completed_count = 0, trail = [] \<rparr>"
  by (simp add: run_loop_def Let_def)

lemma run_projections:
  assumes "download_video w st =
             Finished \<lparr> final_state = reset_download_state (final_report a c n s),
                        r_completed = c, r_total = n, r_trail = t,
                        r_cancelled = stop_requested s \<rparr>"
  shows "run_outcomes (download_video w st) = Some (outcomes n t)"
    and "run_counts (download_video w st) = Some (c, n)"
    and "run_cancelled (download_video w st) = Some (stop_requested s)"
    and "run_status (download_video w st)
           = Some (if stop_requested s then Cancelled
                   else if c = n then Completed else PartiallyFailed)"
    and "fetched (run_state (download_video w st)) = fetched s"
  using assms
  by (simp_all add: run_outcomes_def run_counts_def run_cancelled_def run_status_def
      run_state_def final_status_after_report)


lemma run_from_loop:
  assumes "py_strip (url_entry st) \<noteq> []" and "ffmpeg_ok st"
    and "py_split (quality_var st) \<noteq> []"
    and "run_loop w st = \<lparr> app = s, completed_count = c, trail = t \<rparr>"
    and "length (fst (resolve_entries (py_strip (url_entry st)) (extract_result w))) = n"
  shows "run_outcomes (download_video w st) = Some (outcomes n t)"
    and "run_counts (download_video w st) = Some (c, n)"
    and "run_cancelled (download_video w st) = Some (stop_requested s)"
    and "run_status (download_video w st)
           = Some (if stop_requested s then Cancelled
                   else if c = n then Completed else PartiallyFailed)"
    and "fetched (run_state (download_video w st)) = fetched s"
proof -
  from download_video_finished [OF assms(1-3), of w] assms(4,5)
  have dv: "download_video w st =
             Finished \<lparr> final_state = reset_download_state
                          (final_report (open_folder_answer w) c n s),
                        r_completed = c, r_total = n, r_trail = t,
                        r_cancelled = stop_requested s \<rparr>"
    by simp
  from run_projections [OF dv]
  show "run_outcomes (download_video w st) = Some (outcomes n t)"
    and "run_counts (download_video w st) = Some (c, n)"
    and "run_cancelled (download_video w st) = Some (stop_requested s)"
    and "run_status (download_video w st)
           = Some (if stop_requested s then Cancelled
                   else if c = n then Completed else PartiallyFailed)"
    and "fetched (run_state (download_video w st)) = fetched s"
    by simp_all
qed

text \<open>
  Claim C2, for every run that reaches the loop while the window is in its downloading
  state. The first stop request of a run is seen in one of three places. If it comes
  before the loop starts, the loop is left at the top of its first iteration: every unit
  is skipped and nothing is given to the backend. If it comes during the download of a
  unit after that download's last hook call, the unit ends as its download ends, and
  the loop is left at the top of the next iteration: the units after it are skipped.
  If it comes during the download of a unit before a later hook call, that hook call
  raises the stop message and the loop is left in the \<^verbatim>\<open>except\<close> branch: this
  unit and all after it are skipped. In each case the units before are the ones
  downloaded undisturbed, no URL of a skipped later unit is given to the backend, the
  count of completed units is the number of downloads that returned, and the run is
  reported as cancelled.
\<close>

theorem stop_skips_remaining_units:
  assumes "py_strip (url_entry st) \<noteq> []" and "ffmpeg_ok st"
    and "py_split (quality_var st) \<noteq> []" and "downloading st"
  shows
    "(fst (resolve_entries (py_strip (url_entry st)) (extract_result w)) = e0 # rest0
        \<and> (stop_requested st \<or> stop_while_resolving w) \<longrightarrow>
        run_outcomes (download_video w st)
          = Some (replicate (Suc (length rest0)) SkippedByCancellation)
        \<and> run_counts (download_video w st) = Some (0, Suc (length rest0))
        \<and> run_cancelled (download_video w st) = Some True
        \<and> run_status (download_video w st) = Some Cancelled
        \<and> fetched (run_state (download_video w st)) = fetched st)
     \<and> (fst (resolve_entries (py_strip (url_entry st)) (extract_result w)) = pre @ e # rest
        \<and> rest \<noteq> [] \<and> \<not> stop_requested st \<and> \<not> stop_while_resolving w
        \<and> undisturbed (fetch_behaviour w) 0 pre
        \<and> fst (fetch_behaviour w (length pre) (entry_url e)) = hs @ UiStop # ts
        \<and> UiStop \<notin> set hs \<and> \<not> has_hook_call ts
        \<and> passes_on (snd (fetch_behaviour w (length pre) (entry_url e))) \<longrightarrow>
        run_outcomes (download_video w st)
          = Some (map outcome_of
                    (undisturbed_paths (fetch_behaviour w) 0 pre
                       @ [path_of_end (snd (fetch_behaviour w (length pre) (entry_url e)))])
                  @ replicate (length rest) SkippedByCancellation)
        \<and> run_counts (download_video w st)
          = Some (length (filter (\<lambda>p. p = Returned)
                    (undisturbed_paths (fetch_behaviour w) 0 pre
                       @ [path_of_end (snd (fetch_behaviour w (length pre) (entry_url e)))])),
                  length pre + Suc (length rest))
        \<and> run_cancelled (download_video w st) = Some True
        \<and> run_status (download_video w st) = Some Cancelled
        \<and> fetched (run_state (download_video w st))
            = fetched st @ map entry_url pre @ [entry_url e])
     \<and> (fst (resolve_entries (py_strip (url_entry st)) (extract_result w)) = pre @ e # rest
        \<and> \<not> stop_requested st \<and> \<not> stop_while_resolving w
        \<and> undisturbed (fetch_behaviour w) 0 pre
        \<and> fst (fetch_behaviour w (length pre) (entry_url e)) = hs @ UiStop # ts
        \<and> UiStop \<notin> set hs \<and> has_hook_call ts \<longrightarrow>
        run_outcomes (download_video w st)
          = Some (map outcome_of (undisturbed_paths (fetch_behaviour w) 0 pre)
                  @ replicate (Suc (length rest)) SkippedByCancellation)
        \<and> run_counts (download_video w st)
          = Some (length (filter (\<lambda>p. p = Returned)
                    (undisturbed_paths (fetch_behaviour w) 0 pre)),
                  length pre + Suc (length rest))
        \<and> run_cancelled (download_video w st) = Some True
        \<and> run_status (download_video w st) = Some Cancelled
        \<and> fetched (run_state (download_video w st))
            = fetched st @ map entry_url pre @ [entry_url e])"
proof (intro conjI)
  let ?be = "fetch_behaviour w"
  let ?es = "fst (resolve_entries (py_strip (url_entry st)) (extract_result w))"
  let ?ls0 = "\<lparr> app = state_after_resolving w st, completed_count = 0, trail = [] \<rparr>"
  show "?es = e0 # rest0 \<and> (stop_requested st \<or> stop_while_resolving w) \<longrightarrow>
        run_outcomes (download_video w st)
          = Some (replicate (Suc (length rest0)) SkippedByCancellation)
        \<and> run_counts (download_video w st) = Some (0, Suc (length rest0))
        \<and> run_cancelled (download_video w st) = Some True
        \<and> run_status (download_video w st) = Some Cancelled
        \<and> fetched (run_state (download_video w st)) = fetched st"
  proof
    assume h: "?es = e0 # rest0 \<and> (stop_requested st \<or> stop_while_resolving w)"
    then have es: "?es = e0 # rest0" by simp
    from h assms(4) have sr: "stop_requested (app ?ls0)" by auto
    have L: "run_loop w st
               = \<lparr> app = state_after_resolving w st, completed_count = 0,
                   trail = [StopAtTop] \<rparr>"
      unfolding run_loop_unfold es
      using download_loop_stop_top [OF sr, of ?be "length (e0 # rest0)" 0 e0 rest0]
      by (simp add: loop_state_updates)
    have n: "length ?es = Suc (length rest0)" using es by simp
    from run_from_loop [OF assms(1-3) L n] sr
    show "run_outcomes (download_video w st)
          = Some (replicate (Suc (length rest0)) SkippedByCancellation)
        \<and> run_counts (download_video w st) = Some (0, Suc (length rest0))
        \<and> run_cancelled (download_video w st) = Some True
        \<and> run_status (download_video w st) = Some Cancelled
        \<and> fetched (run_state (download_video w st)) = fetched st"
      by (simp add: outcomes_def)
  qed
  show "?es = pre @ e # rest
        \<and> rest \<noteq> [] \<and> \<not> stop_requested st \<and> \<not> stop_while_resolving w
        \<and> undisturbed ?be 0 pre
        \<and> fst (?be (length pre) (entry_url e)) = hs @ UiStop # ts
        \<and> UiStop \<notin> set hs \<and> \<not> has_hook_call ts
        \<and> passes_on (snd (?be (length pre) (entry_url e))) \<longrightarrow>
        run_outcomes (download_video w st)
          = Some (map outcome_of
                    (undisturbed_paths ?be 0 pre
                       @ [path_of_end (snd (?be (length pre) (entry_url e)))])
                  @ replicate (length rest) SkippedByCancellation)
        \<and> run_counts (download_video w st)
          = Some (length (filter (\<lambda>p. p = Returned)
                    (undisturbed_paths ?be 0 pre
                       @ [path_of_end (snd (?be (length pre) (entry_url e)))])),
                  length pre + Suc (length rest))
        \<and> run_cancelled (download_video w st) = Some True
        \<and> run_status (download_video w st) = Some Cancelled
        \<and> fetched (run_state (download_video w st))
            = fetched st @ map entry_url pre @ [entry_url e]"
  proof
    assume h: "?es = pre @ e # rest
        \<and> rest \<noteq> [] \<and> \<not> stop_requested st \<and> \<not> stop_while_resolving w
        \<and> undisturbed ?be 0 pre
        \<and> fst (?be (length pre) (entry_url e)) = hs @ UiStop # ts
        \<and> UiStop \<notin> set hs \<and> \<not> has_hook_call ts
        \<and> passes_on (snd (?be (length pre) (entry_url e)))"
    let ?n = "length (pre @ e # rest)"
    let ?pe = "path_of_end (snd (?be (length pre) (entry_url e)))"
    from h have es: "?es = pre @ e # rest" by simp
    from h have ns0: "\<not> stop_requested (app ?ls0)" by simp
    from h have und: "undisturbed ?be 0 pre" by simp
    from download_loop_undisturbed [OF und ns0, of ?n "e # rest"] assms(4)
    obtain s1 where s1: "\<not> stop_requested s1" "downloading s1"
        "fetched s1 = fetched st @ map entry_url pre"
      and l1: "download_loop ?be ?n 0 (pre @ e # rest) ?ls0
                 = download_loop ?be ?n (length pre) (e # rest)
                     \<lparr> app = s1,
                       completed_count =
                         length (filter (\<lambda>p. p = Returned) (undisturbed_paths ?be 0 pre)),
                       trail = undisturbed_paths ?be 0 pre \<rparr>"
      by auto
    let ?ls1 = "\<lparr> app = s1,
                  completed_count =
                    length (filter (\<lambda>p. p = Returned) (undisturbed_paths ?be 0 pre)),
                  trail = undisturbed_paths ?be 0 pre \<rparr>"
    have ns1: "\<not> stop_requested (app ?ls1)" and d1: "downloading (app ?ls1)"
      using s1 by simp_all
    from h have sc: "fst (?be (length pre) (entry_url e)) = hs @ UiStop # ts"
      and hs: "UiStop \<notin> set hs" and nh: "\<not> has_hook_call ts"
      and po: "passes_on (snd (?be (length pre) (entry_url e)))"
      by simp_all
    from loop_step_stop_after_hooks
           [where ls = ?ls1 and be = ?be and i = "length pre" and e = e and hs = hs
              and ts = ts and n = ?n and rest = rest, OF ns1 d1 sc hs nh po] s1
    obtain s2 where s2: "stop_requested s2"
        "fetched s2 = fetched st @ map entry_url pre @ [entry_url e]"
      and l2: "download_loop ?be ?n (length pre) (e # rest) ?ls1
                 = download_loop ?be ?n (Suc (length pre)) rest
                     \<lparr> app = s2,
                       completed_count =
                         length (filter (\<lambda>p. p = Returned)
                                   (undisturbed_paths ?be 0 pre @ [?pe])),
                       trail = undisturbed_paths ?be 0 pre @ [?pe] \<rparr>"
      by auto
    let ?ls2 = "\<lparr> app = s2,
                  completed_count =
                    length (filter (\<lambda>p. p = Returned) (undisturbed_paths ?be 0 pre @ [?pe])),
                  trail = undisturbed_paths ?be 0 pre @ [?pe] \<rparr>"
    from h obtain e' rest' where r': "rest = e' # rest'" by (cases rest) auto
    have sr2: "stop_requested (app ?ls2)" using s2 by simp
    from download_loop_stop_top [OF sr2, of ?be ?n "Suc (length pre)" e' rest'] r'
    have l3: "download_loop ?be ?n (Suc (length pre)) rest ?ls2
                = \<lparr> app = s2,
                    completed_count =
                      length (filter (\<lambda>p. p = Returned) (undisturbed_paths ?be 0 pre @ [?pe])),
                    trail = undisturbed_paths ?be 0 pre @ [?pe] @ [StopAtTop] \<rparr>"
      by (simp add: loop_state_updates)
    have L: "run_loop w st
               = \<lparr> app = s2,
                   completed_count =
                     length (filter (\<lambda>p. p = Returned) (undisturbed_paths ?be 0 pre @ [?pe])),
                   trail = undisturbed_paths ?be 0 pre @ [?pe] @ [StopAtTop] \<rparr>"
      unfolding run_loop_unfold es using l1 l2 l3 by simp
    have n: "length ?es = length pre + Suc (length rest)" using es by simp
    from run_from_loop [OF assms(1-3) L n] s2 r'
    show "run_outcomes (download_video w st)
          = Some (map outcome_of (undisturbed_paths ?be 0 pre @ [?pe])
                  @ replicate (length rest) SkippedByCancellation)
        \<and> run_counts (download_video w st)
          = Some (length (filter (\<lambda>p. p = Returned) (undisturbed_paths ?be 0 pre @ [?pe])),
                  length pre + Suc (length rest))
        \<and> run_cancelled (download_video w st) = Some True
        \<and> run_status (download_video w st) = Some Cancelled
        \<and> fetched (run_state (download_video w st))
            = fetched st @ map entry_url pre @ [entry_url e]"
      by (simp add: outcomes_def)
  qed
  show "?es = pre @ e # rest
        \<and> \<not> stop_requested st \<and> \<not> stop_while_resolving w
        \<and> undisturbed ?be 0 pre
        \<and> fst (?be (length pre) (entry_url e)) = hs @ UiStop # ts
        \<and> UiStop \<notin> set hs \<and> has_hook_call ts \<longrightarrow>
        run_outcomes (download_video w st)
          = Some (map outcome_of (undisturbed_paths ?be 0 pre)
                  @ replicate (Suc (length rest)) SkippedByCancellation)
        \<and> run_counts (download_video w st)
          = Some (length (filter (\<lambda>p. p = Returned) (undisturbed_paths ?be 0 pre)),
                  length pre + Suc (length rest))
        \<and> run_cancelled (download_video w st) = Some True
        \<and> run_status (download_video w st) = Some Cancelled
        \<and> fetched (run_state (download_video w st))
            = fetched st @ map entry_url pre @ [entry_url e]"
  proof
    assume h: "?es = pre @ e # rest
        \<and> \<not> stop_requested st \<and> \<not> stop_while_resolving w
        \<and> undisturbed ?be 0 pre
        \<and> fst (?be (length pre) (entry_url e)) = hs @ UiStop # ts
        \<and> UiStop \<notin> set hs \<and> has_hook_call ts"
    let ?n = "length (pre @ e # rest)"
    from h have es: "?es = pre @ e # rest" by simp
    from h have ns0: "\<not> stop_requested (app ?ls0)" by simp
    from h have und: "undisturbed ?be 0 pre" by simp
    from download_loop_undisturbed [OF und ns0, of ?n "e # rest"] assms(4)
    obtain s1 where s1: "\<not> stop_requested s1" "downloading s1"
        "fetched s1 = fetched st @ map entry_url pre"
      and l1: "download_loop ?be ?n 0 (pre @ e # rest) ?ls0
                 = download_loop ?be ?n (length pre) (e # rest)
                     \<lparr> app = s1,
                       completed_count =
                         length (filter (\<lambda>p. p = Returned) (undisturbed_paths ?be 0 pre)),
                       trail = undisturbed_paths ?be 0 pre \<rparr>"
      by auto
    let ?ls1 = "\<lparr> app = s1,
                  completed_count =
                    length (filter (\<lambda>p. p = Returned) (undisturbed_paths ?be 0 pre)),
                  trail = undisturbed_paths ?be 0 pre \<rparr>"
    have ns1: "\<not> stop_requested (app ?ls1)" and d1: "downloading (app ?ls1)"
      using s1 by simp_all
    from h have sc: "fst (?be (length pre) (entry_url e)) = hs @ UiStop # ts"
      and hs: "UiStop \<notin> set hs" and hh: "has_hook_call ts"
      by simp_all
    from loop_step_stop_before_hook
           [where ls = ?ls1 and be = ?be and i = "length pre" and e = e and hs = hs
              and ts = ts and n = ?n and rest = rest, OF ns1 d1 sc hs hh] s1
    obtain s2 where s2: "stop_requested s2"
        "fetched s2 = fetched st @ map entry_url pre @ [entry_url e]"
      and l2: "download_loop ?be ?n (length pre) (e # rest) ?ls1
                 = \<lparr> app = s2,
                     completed_count =
                       length (filter (\<lambda>p. p = Returned) (undisturbed_paths ?be 0 pre)),
                     trail = undisturbed_paths ?be 0 pre @ [RaisedBreak stop_message] \<rparr>"
      by auto
    have L: "run_loop w st
               = \<lparr> app = s2,
                   completed_count =
                     length (filter (\<lambda>p. p = Returned) (undisturbed_paths ?be 0 pre)),
                   trail = undisturbed_paths ?be 0 pre @ [RaisedBreak stop_message] \<rparr>"
      unfolding run_loop_unfold es using l1 l2 by simp
    have n: "length ?es = length pre + Suc (length rest)" using es by simp
    from run_from_loop [OF assms(1-3) L n] s2
    show "run_outcomes (download_video w st)
          = Some (map outcome_of (undisturbed_paths ?be 0 pre)
                  @ replicate (Suc (length rest)) SkippedByCancellation)
        \<and> run_counts (download_video w st)
          = Some (length (filter (\<lambda>p. p = Returned) (undisturbed_paths ?be 0 pre)),
                  length pre + Suc (length rest))
        \<and> run_cancelled (download_video w st) = Some True
        \<and> run_status (download_video w st) = Some Cancelled
        \<and> fetched (run_state (download_video w st))
            = fetched st @ map entry_url pre @ [entry_url e]"
      by (simp add: outcomes_def)
  qed
qed


text \<open>
  C2 for a list of five URLs: a stop requested while the list is fetched; a stop
  requested at the end of the second download, which returns; and a stop requested
  during the second download before a hook call.
\<close>

theorem stop_skips_remaining_units_witness:
  "run_outcomes
     (download_video
        \<lparr> extract_result = ExtractReturns (Some
            \<lparr> info_fields = [(''title'', PStr ''Mix'')],
              info_entries = Some [Some [(''url'', PStr ''https://example.com/1'')],
                                   Some [(''url'', PStr ''https://example.com/2'')],
                                   Some [(''url'', PStr ''https://example.com/3'')],
                                   Some [(''url'', PStr ''https://example.com/4'')],
                                   Some [(''url'', PStr ''https://example.com/5'')]] \<rparr>),
          stop_while_resolving = True,
          fetch_behaviour =
            (\<lambda>i u. ([], FetchReturns)),
          open_folder_answer = False \<rparr>
        (initial_state\<lparr> url_entry := ''https://example.com/list'', downloading := True \<rparr>))
     = Some [SkippedByCancellation, SkippedByCancellation, SkippedByCancellation,
             SkippedByCancellation, SkippedByCancellation]
   \<and> fetched (run_state
     (download_video
        \<lparr> extract_result = ExtractReturns (Some
            \<lparr> info_fields = [(''title'', PStr ''Mix'')],
              info_entries = Some [Some [(''url'', PStr ''https://example.com/1'')],
                                   Some [(''url'', PStr ''https://example.com/2'')],
                                   Some [(''url'', PStr ''https://example.com/3'')],
                                   Some [(''url'', PStr ''https://example.com/4'')],
                                   Some [(''url'', PStr ''https://example.com/5'')]] \<rparr>),
          stop_while_resolving = True,
          fetch_behaviour =
            (\<lambda>i u. ([], FetchReturns)),
          open_folder_answer = False \<rparr>
        (initial_state\<lparr> url_entry := ''https://example.com/list'', downloading := True \<rparr>))) = []
   \<and> run_outcomes
     (download_video
        \<lparr> extract_result = ExtractReturns (Some
            \<lparr> info_fields = [(''title'', PStr ''Mix'')],
              info_entries = Some [Some [(''url'', PStr ''https://example.com/1'')],
                                   Some [(''url'', PStr ''https://example.com/2'')],
                                   Some [(''url'', PStr ''https://example.com/3'')],
                                   Some [(''url'', PStr ''https://example.com/4'')],
                                   Some [(''url'', PStr ''https://example.com/5'')]] \<rparr>),
          stop_while_resolving = False,
          fetch_behaviour =
            (\<lambda>i u. if i = 1
                    then ([HookCall \<lparr> ev_status = Some ''finished'', ev_total_bytes = None,
                                      ev_total_bytes_estimate = None, ev_downloaded_bytes = None,
                                      ev_title = None, ev_speed = None \<rparr>, UiStop], FetchReturns)
                    else ([], FetchReturns)),
          open_folder_answer = False \<rparr>
        (initial_state\<lparr> url_entry := ''https://example.com/list'', downloading := True \<rparr>))
     = Some [Succeeded, Succeeded, SkippedByCancellation, SkippedByCancellation,
             SkippedByCancellation]
   \<and> run_cancelled
     (download_video
        \<lparr> extract_result = ExtractReturns (Some
            \<lparr> info_fields = [(''title'', PStr ''Mix'')],
              info_entries = Some [Some [(''url'', PStr ''https://example.com/1'')],
                                   Some [(''url'', PStr ''https://example.com/2'')],
                                   Some [(''url'', PStr ''https://example.com/3'')],
                                   Some [(''url'', PStr ''https://example.com/4'')],
                                   Some [(''url'', PStr ''https://example.com/5'')]] \<rparr>),
          stop_while_resolving = False,
          fetch_behaviour =
            (\<lambda>i u. if i = 1
                    then ([HookCall \<lparr> ev_status = Some ''finished'', ev_total_bytes = None,
                                      ev_total_bytes_estimate = None, ev_downloaded_bytes = None,
                                      ev_title = None, ev_speed = None \<rparr>, UiStop], FetchReturns)
                    else ([], FetchReturns)),
          open_folder_answer = False \<rparr>
        (initial_state\<lparr> url_entry := ''https://example.com/list'', downloading := True \<rparr>))
     = Some True
   \<and> run_counts
     (download_video
        \<lparr> extract_result = ExtractReturns (Some
            \<lparr> info_fields = [(''title'', PStr ''Mix'')],
              info_entries = Some [Some [(''url'', PStr ''https://example.com/1'')],
                                   Some [(''url'', PStr ''https://example.com/2'')],
                                   Some [(''url'', PStr ''https://example.com/3'')],
                                   Some [(''url'', PStr ''https://example.com/4'')],
                                   Some [(''url'', PStr ''https://example.com/5'')]] \<rparr>),
          stop_while_resolving = False,
          fetch_behaviour =
            (\<lambda>i u. if i = 1
                    then ([HookCall \<lparr> ev_status = Some ''finished'', ev_total_bytes = None,
                                      ev_total_bytes_estimate = None, ev_downloaded_bytes = None,
                                      ev_title = None, ev_speed = None \<rparr>, UiStop], FetchReturns)
                    else ([], FetchReturns)),
          open_folder_answer = False \<rparr>
        (initial_state\<lparr> url_entry := ''https://example.com/list'', downloading := True \<rparr>))
     = Some (2, 5)
   \<and> fetched (run_state
     (download_video
        \<lparr> extract_result = ExtractReturns (Some
            \<lparr> info_fields = [(''title'', PStr ''Mix'')],
              info_entries = Some [Some [(''url'', PStr ''https://example.com/1'')],
                                   Some [(''url'', PStr ''https://example.com/2'')],
                                   Some [(''url'', PStr ''https://example.com/3'')],
                                   Some [(''url'', PStr ''https://example.com/4'')],
                                   Some [(''url'', PStr ''https://example.com/5'')]] \<rparr>),
          stop_while_resolving = False,
          fetch_behaviour =
            (\<lambda>i u. if i = 1
                    then ([HookCall \<lparr> ev_status = Some ''finished'', ev_total_bytes = None,
                                      ev_total_bytes_estimate = None, ev_downloaded_bytes = None,
                                      ev_title = None, ev_speed = None \<rparr>, UiStop], FetchReturns)
                    else ([], FetchReturns)),
          open_folder_answer = False \<rparr>
        (initial_state\<lparr> url_entry := ''https://example.com/list'', downloading := True \<rparr>))) = [''https://example.com/1'', ''https://example.com/2'']
   \<and> run_outcomes
     (download_video
        \<lparr> extract_result = ExtractReturns (Some
            \<lparr> info_fields = [(''title'', PStr ''Mix'')],
              info_entries = Some [Some [(''url'', PStr ''https://example.com/1'')],
                                   Some [(''url'', PStr ''https://example.com/2'')],
                                   Some [(''url'', PStr ''https://example.com/3'')],
                                   Some [(''url'', PStr ''https://example.com/4'')],
                                   Some [(''url'', PStr ''https://example.com/5'')]] \<rparr>),
          stop_while_resolving = False,
          fetch_behaviour =
            (\<lambda>i u. if i = 1
                    then ([UiStop, HookCall \<lparr> ev_status = Some ''finished'', ev_total_bytes = None,
                                      ev_total_bytes_estimate = None, ev_downloaded_bytes = None,
                                      ev_title = None, ev_speed = None \<rparr>], FetchReturns)
                    else ([], FetchReturns)),
          open_folder_answer = False \<rparr>
        (initial_state\<lparr> url_entry := ''https://example.com/list'', downloading := True \<rparr>))
     = Some [Succeeded, SkippedByCancellation, SkippedByCancellation,
             SkippedByCancellation, SkippedByCancellation]
   \<and> run_cancelled
     (download_video
        \<lparr> extract_result = ExtractReturns (Some
            \<lparr> info_fields = [(''title'', PStr ''Mix'')],
              info_entries = Some [Some [(''url'', PStr ''https://example.com/1'')],
                                   Some [(''url'', PStr ''https://example.com/2'')],
                                   Some [(''url'', PStr ''https://example.com/3'')],
                                   Some [(''url'', PStr ''https://example.com/4'')],
                                   Some [(''url'', PStr ''https://example.com/5'')]] \<rparr>),
          stop_while_resolving = False,
          fetch_behaviour =
            (\<lambda>i u. if i = 1
                    then ([UiStop, HookCall \<lparr> ev_status = Some ''finished'', ev_total_bytes = None,
                                      ev_total_bytes_estimate = None, ev_downloaded_bytes = None,
                                      ev_title = None, ev_speed = None \<rparr>], FetchReturns)
                    else ([], FetchReturns)),
          open_folder_answer = False \<rparr>
        (initial_state\<lparr> url_entry := ''https://example.com/list'', downloading := True \<rparr>))
     = Some True
   \<and> fetched (run_state
     (download_video
        \<lparr> extract_result = ExtractReturns (Some
            \<lparr> info_fields = [(''title'', PStr ''Mix'')],
              info_entries = Some [Some [(''url'', PStr ''https://example.com/1'')],
                                   Some [(''url'', PStr ''https://example.com/2'')],
                                   Some [(''url'', PStr ''https://example.com/3'')],
                                   Some [(''url'', PStr ''https://example.com/4'')],
                                   Some [(''url'', PStr ''https://example.com/5'')]] \<rparr>),
          stop_while_resolving = False,
          fetch_behaviour =
            (\<lambda>i u. if i = 1
                    then ([UiStop, HookCall \<lparr> ev_status = Some ''finished'', ev_total_bytes = None,
                                      ev_total_bytes_estimate = None, ev_downloaded_bytes = None,
                                      ev_title = None, ev_speed = None \<rparr>], FetchReturns)
                    else ([], FetchReturns)),
          open_folder_answer = False \<rparr>
        (initial_state\<lparr> url_entry := ''https://example.com/list'', downloading := True \<rparr>))) = [''https://example.com/1'', ''https://example.com/2'']"
proof -
  let ?info = "\<lparr> info_fields = [(''title'', PStr ''Mix'')],
              info_entries = Some [Some [(''url'', PStr ''https://example.com/1'')],
                                   Some [(''url'', PStr ''https://example.com/2'')],
                                   Some [(''url'', PStr ''https://example.com/3'')],
                                   Some [(''url'', PStr ''https://example.com/4'')],
                                   Some [(''url'', PStr ''https://example.com/5'')]] \<rparr>"
  let ?d = "\<lparr> ev_status = Some ''finished'', ev_total_bytes = None,
                                      ev_total_bytes_estimate = None, ev_downloaded_bytes = None,
                                      ev_title = None, ev_speed = None \<rparr>"
  let ?wa = "\<lparr> extract_result = ExtractReturns (Some
            ?info),
          stop_while_resolving = True,
          fetch_behaviour =
            (\<lambda>i u. ([], FetchReturns)),
          open_folder_answer = False \<rparr>"
  let ?wb = "\<lparr> extract_result = ExtractReturns (Some
            ?info),
          stop_while_resolving = False,
          fetch_behaviour =
            (\<lambda>i u. if i = 1
                    then ([HookCall ?d, UiStop], FetchReturns)
                    else ([], FetchReturns)),
          open_folder_answer = False \<rparr>"
  let ?wc = "\<lparr> extract_result = ExtractReturns (Some
            ?info),
          stop_while_resolving = False,
          fetch_behaviour =
            (\<lambda>i u. if i = 1
                    then ([UiStop, HookCall ?d], FetchReturns)
                    else ([], FetchReturns)),
          open_folder_answer = False \<rparr>"
  let ?st = "initial_state\<lparr> url_entry := ''https://example.com/list'', downloading := True \<rparr>"
  let ?e1 = "\<lparr> entry_title = PStr ''Unknown'', entry_url = ''https://example.com/1'',
               entry_id = PNone \<rparr>"
  let ?e2 = "\<lparr> entry_title = PStr ''Unknown'', entry_url = ''https://example.com/2'',
               entry_id = PNone \<rparr>"
  let ?e3 = "\<lparr> entry_title = PStr ''Unknown'', entry_url = ''https://example.com/3'',
               entry_id = PNone \<rparr>"
  let ?e4 = "\<lparr> entry_title = PStr ''Unknown'', entry_url = ''https://example.com/4'',
               entry_id = PNone \<rparr>"
  let ?e5 = "\<lparr> entry_title = PStr ''Unknown'', entry_url = ''https://example.com/5'',
               entry_id = PNone \<rparr>"
  have u: "py_strip ''https://example.com/list'' = ''https://example.com/list''"
    by (simp add: py_strip_def py_isspace_def)
  have q: "py_split ''1080p (Full HD)'' \<noteq> []"
    by (simp add: py_split_def py_isspace_def)
  have r: "fst (resolve_entries ''https://example.com/list'' (ExtractReturns (Some ?info)))
             = [?e1, ?e2, ?e3, ?e4, ?e5]"
    by (simp add: resolve_entries_def info_truthy_def entry_of_def dict_get_def py_or_def)
  have p1: "py_strip (url_entry ?st) \<noteq> []" using u by (simp add: initial_state_def)
  have p2: "ffmpeg_ok ?st" by (simp add: initial_state_def)
  have p3: "py_split (quality_var ?st) \<noteq> []" using q by (simp add: initial_state_def)
  have p4: "downloading ?st" by simp
  have ns: "\<not> stop_requested ?st" by (simp add: initial_state_def)
  have ha: "fst (resolve_entries (py_strip (url_entry ?st)) (extract_result ?wa))
              = ?e1 # [?e2, ?e3, ?e4, ?e5]
            \<and> (stop_requested ?st \<or> stop_while_resolving ?wa)"
    using u r by (simp add: initial_state_def)
  from stop_skips_remaining_units
         [OF p1 p2 p3 p4, where w = ?wa and ?e0.0 = ?e1 and rest0 = "[?e2, ?e3, ?e4, ?e5]"] ha
  have a: "run_outcomes (download_video ?wa ?st)
             = Some (replicate (Suc (length [?e2, ?e3, ?e4, ?e5])) SkippedByCancellation)
           \<and> fetched (run_state (download_video ?wa ?st)) = fetched ?st"
    by blast
  have hb: "fst (resolve_entries (py_strip (url_entry ?st)) (extract_result ?wb))
              = [?e1] @ ?e2 # [?e3, ?e4, ?e5]
            \<and> [?e3, ?e4, ?e5] \<noteq> [] \<and> \<not> stop_requested ?st \<and> \<not> stop_while_resolving ?wb
            \<and> undisturbed (fetch_behaviour ?wb) 0 [?e1]
            \<and> fst (fetch_behaviour ?wb (length [?e1]) (entry_url ?e2)) = [HookCall ?d] @ UiStop # []
            \<and> UiStop \<notin> set [HookCall ?d] \<and> \<not> has_hook_call []
            \<and> passes_on (snd (fetch_behaviour ?wb (length [?e1]) (entry_url ?e2)))"
    using u r ns by (simp add: initial_state_def passes_on_def)
  from stop_skips_remaining_units
         [OF p1 p2 p3 p4, where w = ?wb and pre = "[?e1]" and e = ?e2
            and rest = "[?e3, ?e4, ?e5]" and hs = "[HookCall ?d]" and ts = "[]"] hb
  have b: "run_outcomes (download_video ?wb ?st)
             = Some (map outcome_of
                       (undisturbed_paths (fetch_behaviour ?wb) 0 [?e1]
                          @ [path_of_end (snd (fetch_behaviour ?wb (length [?e1]) (entry_url ?e2)))])
                     @ replicate (length [?e3, ?e4, ?e5]) SkippedByCancellation)
           \<and> run_counts (download_video ?wb ?st)
             = Some (length (filter (\<lambda>p. p = Returned)
                       (undisturbed_paths (fetch_behaviour ?wb) 0 [?e1]
                          @ [path_of_end (snd (fetch_behaviour ?wb (length [?e1]) (entry_url ?e2)))])),
                     length [?e1] + Suc (length [?e3, ?e4, ?e5]))
           \<and> run_cancelled (download_video ?wb ?st) = Some True
           \<and> fetched (run_state (download_video ?wb ?st))
               = fetched ?st @ map entry_url [?e1] @ [entry_url ?e2]"
    by blast
  have hc: "fst (resolve_entries (py_strip (url_entry ?st)) (extract_result ?wc))
              = [?e1] @ ?e2 # [?e3, ?e4, ?e5]
            \<and> \<not> stop_requested ?st \<and> \<not> stop_while_resolving ?wc
            \<and> undisturbed (fetch_behaviour ?wc) 0 [?e1]
            \<and> fst (fetch_behaviour ?wc (length [?e1]) (entry_url ?e2)) = [] @ UiStop # [HookCall ?d]
            \<and> UiStop \<notin> set [] \<and> has_hook_call [HookCall ?d]"
    using u r ns by (simp add: initial_state_def passes_on_def)
  from stop_skips_remaining_units
         [OF p1 p2 p3 p4, where w = ?wc and pre = "[?e1]" and e = ?e2
            and rest = "[?e3, ?e4, ?e5]" and hs = "[]" and ts = "[HookCall ?d]"] hc
  have c: "run_outcomes (download_video ?wc ?st)
             = Some (map outcome_of (undisturbed_paths (fetch_behaviour ?wc) 0 [?e1])
                     @ replicate (Suc (length [?e3, ?e4, ?e5])) SkippedByCancellation)
           \<and> run_cancelled (download_video ?wc ?st) = Some True
           \<and> fetched (run_state (download_video ?wc ?st))
               = fetched ?st @ map entry_url [?e1] @ [entry_url ?e2]"
    by blast
  from a b c show ?thesis
    by (simp add: initial_state_def path_of_end_def numeral_2_eq_2)
qed


section \<open>A failing listing\<close>

text \<open>
  Claim C7. When \<^verbatim>\<open>extract_info\<close> raises, resolution gives the single entry with
  title "Unknown" and the URL as entered, whatever the error. The run that follows is
  the run for a URL resolved to a single video of that title: the two are equal. With
  a URL entered, ffmpeg present and a quality label selected, the run is the loop over
  that one entry, started in the state after the status update and a stop requested in
  the meantime, followed by the final report and the reset. If no stop is requested,
  the URL is given to the backend, and the one outcome, the counts and the final status
  are those of the way the download ends: success if it returns, failure if it raises.
\<close>

theorem extraction_failure_falls_back:
  "resolve_entries url (ExtractRaises msg)
     = ([\<lparr> entry_title = PStr ''Unknown'', entry_url = url, entry_id = PNone \<rparr>], PNone)
   \<and> download_video (w\<lparr> extract_result := ExtractRaises msg \<rparr>) st
     = download_video
         (w\<lparr> extract_result := ExtractReturns
               (Some \<lparr> info_fields = [(''title'', PStr ''Unknown'')], info_entries = None \<rparr>) \<rparr>) st
   \<and> (py_strip (url_entry st) \<noteq> [] \<and> ffmpeg_ok st \<and> py_split (quality_var st) \<noteq> []
        \<and> \<not> stop_requested st \<and> \<not> stop_while_resolving w \<longrightarrow>
        (\<exists>r. download_video (w\<lparr> extract_result := ExtractRaises msg \<rparr>) st = Finished r
              \<and> r_total r = 1 \<and> length (r_trail r) = 1
              \<and> fetched (final_state r) = fetched st @ [py_strip (url_entry st)]))
   \<and> (py_strip (url_entry st) \<noteq> [] \<and> ffmpeg_ok st \<and> py_split (quality_var st) \<noteq> [] \<longrightarrow>
        (let fallback = \<lparr> entry_title = PStr ''Unknown'', entry_url = py_strip (url_entry st),
                           entry_id = PNone \<rparr>;
             st1 = update_status FetchingInfo Downloading st;
             st2 = (if stop_while_resolving w then stop_download st1 else st1);
             ls = download_loop (fetch_behaviour w) 1 0 [fallback]
                    \<lparr> app = st2, completed_count = 0, trail = [] \<rparr>
         in download_video (w\<lparr> extract_result := ExtractRaises msg \<rparr>) st
              = Finished
                  \<lparr> final_state = reset_download_state
                      (final_report (open_folder_answer w) (completed_count ls) 1 (app ls)),
                    r_completed = completed_count ls, r_total = 1, r_trail = trail ls,
                    r_cancelled = stop_requested (app ls) \<rparr>))
   \<and> (py_strip (url_entry st) \<noteq> [] \<and> ffmpeg_ok st \<and> py_split (quality_var st) \<noteq> []
        \<and> \<not> stop_requested st \<and> \<not> stop_while_resolving w
        \<and> UiStop \<notin> set (fst (fetch_behaviour w 0 (py_strip (url_entry st))))
        \<and> passes_on (snd (fetch_behaviour w 0 (py_strip (url_entry st)))) \<longrightarrow>
        run_outcomes (download_video (w\<lparr> extract_result := ExtractRaises msg \<rparr>) st)
          = Some [outcome_of (path_of_end (snd (fetch_behaviour w 0 (py_strip (url_entry st)))))]
        \<and> run_counts (download_video (w\<lparr> extract_result := ExtractRaises msg \<rparr>) st)
          = Some (if snd (fetch_behaviour w 0 (py_strip (url_entry st))) = FetchReturns
                  then 1 else 0, 1)
        \<and> run_status (download_video (w\<lparr> extract_result := ExtractRaises msg \<rparr>) st)
          = Some (if snd (fetch_behaviour w 0 (py_strip (url_entry st))) = FetchReturns
                  then Completed else PartiallyFailed)
        \<and> run_cancelled (download_video (w\<lparr> extract_result := ExtractRaises msg \<rparr>) st)
          = Some False
        \<and> fetched (run_state (download_video (w\<lparr> extract_result := ExtractRaises msg \<rparr>) st))
          = fetched st @ [py_strip (url_entry st)])"
proof (intro conjI impI)
  show "resolve_entries url (ExtractRaises msg)
     = ([\<lparr> entry_title = PStr ''Unknown'', entry_url = url, entry_id = PNone \<rparr>], PNone)"
    by (rule resolve_raises)
  have eq: "resolve_entries u (ExtractRaises msg)
          = resolve_entries u (ExtractReturns
               (Some \<lparr> info_fields = [(''title'', PStr ''Unknown'')], info_entries = None \<rparr>))"
    for u
    by (simp add: resolve_entries_def info_truthy_def dict_get_def)
  show "download_video (w\<lparr> extract_result := ExtractRaises msg \<rparr>) st
     = download_video
         (w\<lparr> extract_result := ExtractReturns
               (Some \<lparr> info_fields = [(''title'', PStr ''Unknown'')], info_entries = None \<rparr>) \<rparr>) st"
    by (simp add: download_video_def run_loop_def state_after_resolving_def eq
        cong: sum.case_cong if_cong)
next
  assume h: "py_strip (url_entry st) \<noteq> [] \<and> ffmpeg_ok st \<and> py_split (quality_var st) \<noteq> []
        \<and> \<not> stop_requested st \<and> \<not> stop_while_resolving w"
  let ?u = "py_strip (url_entry st)"
  let ?e = "\<lparr> entry_title = PStr ''Unknown'', entry_url = ?u, entry_id = PNone \<rparr>"
  let ?w = "w\<lparr> extract_result := ExtractRaises msg \<rparr>"
  let ?ls0 = "\<lparr> app = state_after_resolving ?w st, completed_count = 0, trail = [] \<rparr>"
  have ns: "\<not> stop_requested (app ?ls0)" using h by simp
  have rl: "run_loop ?w st = download_loop (fetch_behaviour w) 1 0 [?e] ?ls0"
    by (simp add: run_loop_def resolve_raises)
  from download_loop_fetched_single [OF ns, of "fetch_behaviour w" 1 0 ?e]
  have l: "fetched (app (run_loop ?w st)) = fetched st @ [?u]
           \<and> length (trail (run_loop ?w st)) = 1"
    by (simp add: rl)
  from h have "download_video ?w st =
           Finished
             \<lparr> final_state = reset_download_state
                 (final_report (open_folder_answer ?w) (completed_count (run_loop ?w st))
                    (length (fst (resolve_entries (py_strip (url_entry st)) (extract_result ?w))))
                    (app (run_loop ?w st))),
               r_completed = completed_count (run_loop ?w st),
               r_total = length (fst (resolve_entries (py_strip (url_entry st)) (extract_result ?w))),
               r_trail = trail (run_loop ?w st),
               r_cancelled = stop_requested (app (run_loop ?w st)) \<rparr>"
    by (intro download_video_finished) simp_all
  with l show "\<exists>r. download_video (w\<lparr> extract_result := ExtractRaises msg \<rparr>) st = Finished r
              \<and> r_total r = 1 \<and> length (r_trail r) = 1
              \<and> fetched (final_state r) = fetched st @ [py_strip (url_entry st)]"
    by (simp add: resolve_raises)
next
  assume h: "py_strip (url_entry st) \<noteq> [] \<and> ffmpeg_ok st \<and> py_split (quality_var st) \<noteq> []"
  let ?w = "w\<lparr> extract_result := ExtractRaises msg \<rparr>"
  have sa: "state_after_resolving ?w st
              = (if stop_while_resolving w
                 then stop_download (update_status FetchingInfo Downloading st)
                 else update_status FetchingInfo Downloading st)"
    by (simp add: state_after_resolving_def resolve_raises Let_def)
  from h have "download_video ?w st =
           Finished
             \<lparr> final_state = reset_download_state
                 (final_report (open_folder_answer ?w) (completed_count (run_loop ?w st))
                    (length (fst (resolve_entries (py_strip (url_entry st)) (extract_result ?w))))
                    (app (run_loop ?w st))),
               r_completed = completed_count (run_loop ?w st),
               r_total = length (fst (resolve_entries (py_strip (url_entry st)) (extract_result ?w))),
               r_trail = trail (run_loop ?w st),
               r_cancelled = stop_requested (app (run_loop ?w st)) \<rparr>"
    by (intro download_video_finished) simp_all
  then show "let fallback = \<lparr> entry_title = PStr ''Unknown'', entry_url = py_strip (url_entry st),
                           entry_id = PNone \<rparr>;
             st1 = update_status FetchingInfo Downloading st;
             st2 = (if stop_while_resolving w then stop_download st1 else st1);
             ls = download_loop (fetch_behaviour w) 1 0 [fallback]
                    \<lparr> app = st2, completed_count = 0, trail = [] \<rparr>
         in download_video (w\<lparr> extract_result := ExtractRaises msg \<rparr>) st
              = Finished
                  \<lparr> final_state = reset_download_state
                      (final_report (open_folder_answer w) (completed_count ls) 1 (app ls)),
                    r_completed = completed_count ls, r_total = 1, r_trail = trail ls,
                    r_cancelled = stop_requested (app ls) \<rparr>"
    by (simp add: Let_def run_loop_unfold resolve_raises sa)
next
  assume h: "py_strip (url_entry st) \<noteq> [] \<and> ffmpeg_ok st \<and> py_split (quality_var st) \<noteq> []
        \<and> \<not> stop_requested st \<and> \<not> stop_while_resolving w
        \<and> UiStop \<notin> set (fst (fetch_behaviour w 0 (py_strip (url_entry st))))
        \<and> passes_on (snd (fetch_behaviour w 0 (py_strip (url_entry st))))"
  let ?u = "py_strip (url_entry st)"
  let ?e = "\<lparr> entry_title = PStr ''Unknown'', entry_url = ?u, entry_id = PNone \<rparr>"
  let ?w = "w\<lparr> extract_result := ExtractRaises msg \<rparr>"
  let ?be = "fetch_behaviour w"
  let ?en = "snd (?be 0 ?u)"
  let ?ls0 = "\<lparr> app = state_after_resolving ?w st, completed_count = 0, trail = [] \<rparr>"
  have ns: "\<not> stop_requested (app ?ls0)" using h by simp
  have us: "UiStop \<notin> set (fst (?be 0 (entry_url ?e)))" using h by simp
  have po: "passes_on (snd (?be 0 (entry_url ?e)))" using h by simp
  from loop_step_passes_on
         [where ls = ?ls0 and be = ?be and i = 0 and n = 1 and e = ?e and rest = "[]",
          OF ns us po]
  obtain s where s: "\<not> stop_requested s" "fetched s = fetched st @ [?u]"
    and l: "download_loop ?be 1 0 [?e] ?ls0
              = \<lparr> app = s,
                  completed_count = length (filter (\<lambda>p. p = Returned) [path_of_end ?en]),
                  trail = [path_of_end ?en] \<rparr>"
    by auto
  have L: "run_loop ?w st
             = \<lparr> app = s,
                 completed_count = length (filter (\<lambda>p. p = Returned) [path_of_end ?en]),
                 trail = [path_of_end ?en] \<rparr>"
    using l by (simp add: run_loop_unfold resolve_raises)
  have p1: "py_strip (url_entry st) \<noteq> []" and p2: "ffmpeg_ok st"
    and p3: "py_split (quality_var st) \<noteq> []"
    using h by simp_all
  have n: "length (fst (resolve_entries (py_strip (url_entry st)) (extract_result ?w))) = 1"
    by (simp add: resolve_raises)
  have c: "path_of_end ?en = Returned \<longleftrightarrow> ?en = FetchReturns"
    by (cases ?en) (simp_all add: path_of_end_def)
  from run_from_loop [OF p1 p2 p3 L n] s
  show "run_outcomes (download_video ?w st) = Some [outcome_of (path_of_end ?en)]"
    and "run_counts (download_video ?w st)
           = Some (if ?en = FetchReturns then 1 else 0, 1)"
    and "run_status (download_video ?w st)
           = Some (if ?en = FetchReturns then Completed else PartiallyFailed)"
    and "run_cancelled (download_video ?w st) = Some False"
    and "fetched (run_state (download_video ?w st)) = fetched st @ [?u]"
    by (simp_all add: outcomes_def c)
qed

text \<open>
  C7 for a run whose listing fails and whose download returns; the URL is entered with
  a no-break space and blanks around it.
\<close>

theorem extraction_failure_falls_back_witness:
  "run_outcomes
     (download_video
        \<lparr> extract_result = ExtractRaises ''network unreachable'', stop_while_resolving = False,
          fetch_behaviour = (\<lambda>i u. ([], FetchReturns)), open_folder_answer = False \<rparr>
        (initial_state\<lparr> url_entry := CHR 0xA0 # '' https://example.com/v '', downloading := True \<rparr>))
     = Some [Succeeded]
   \<and> run_status
     (download_video
        \<lparr> extract_result = ExtractRaises ''network unreachable'', stop_while_resolving = False,
          fetch_behaviour = (\<lambda>i u. ([], FetchReturns)), open_folder_answer = False \<rparr>
        (initial_state\<lparr> url_entry := CHR 0xA0 # '' https://example.com/v '', downloading := True \<rparr>))
     = Some Completed
   \<and> fetched (run_state
        (download_video
           \<lparr> extract_result = ExtractRaises ''network unreachable'', stop_while_resolving = False,
             fetch_behaviour = (\<lambda>i u. ([], FetchReturns)), open_folder_answer = False \<rparr>
           (initial_state\<lparr> url_entry := CHR 0xA0 # '' https://example.com/v '', downloading := True \<rparr>)))
     = [''https://example.com/v'']"
proof -
  let ?w = "\<lparr> extract_result = ExtractReturns None, stop_while_resolving = False,
             fetch_behaviour = (\<lambda>i u. ([], FetchReturns)), open_folder_answer = False \<rparr>"
  let ?w' = "\<lparr> extract_result = ExtractRaises ''network unreachable'', stop_while_resolving = False,
             fetch_behaviour = (\<lambda>i u. ([], FetchReturns)), open_folder_answer = False \<rparr>"
  let ?st = "initial_state\<lparr> url_entry := CHR 0xA0 # '' https://example.com/v '', downloading := True \<rparr>"
  have u0: "py_strip (CHR 0xA0 # '' https://example.com/v '') = ''https://example.com/v''"
    by (simp add: py_strip_def py_isspace_def)
  have q: "py_split ''1080p (Full HD)'' \<noteq> []"
    by (simp add: py_split_def py_isspace_def)
  have h: "py_strip (url_entry ?st) \<noteq> [] \<and> ffmpeg_ok ?st \<and> py_split (quality_var ?st) \<noteq> []
        \<and> \<not> stop_requested ?st \<and> \<not> stop_while_resolving ?w
        \<and> UiStop \<notin> set (fst (fetch_behaviour ?w 0 (py_strip (url_entry ?st))))
        \<and> passes_on (snd (fetch_behaviour ?w 0 (py_strip (url_entry ?st))))"
    using u0 q by (simp add: initial_state_def passes_on_def)
  have w: "?w\<lparr> extract_result := ExtractRaises ''network unreachable'' \<rparr> = ?w'" by simp
  from extraction_failure_falls_back [of "''x''" "''network unreachable''" ?w ?st] h
  have "run_outcomes (download_video (?w\<lparr> extract_result := ExtractRaises ''network unreachable'' \<rparr>) ?st)
          = Some [outcome_of (path_of_end (snd (fetch_behaviour ?w 0 (py_strip (url_entry ?st)))))]
        \<and> run_status (download_video (?w\<lparr> extract_result := ExtractRaises ''network unreachable'' \<rparr>) ?st)
          = Some (if snd (fetch_behaviour ?w 0 (py_strip (url_entry ?st))) = FetchReturns
                  then Completed else PartiallyFailed)
        \<and> fetched (run_state (download_video (?w\<lparr> extract_result := ExtractRaises ''network unreachable'' \<rparr>) ?st))
          = fetched ?st @ [py_strip (url_entry ?st)]"
    by blast
  with u0 show ?thesis by (simp add: w path_of_end_def initial_state_def)
qed

section \<open>The final status\<close>










end
